theory Spec2Isabelle
  imports Complex_Main "HOL-Library.Char_ord" "HOL-Library.List_Lexorder"
begin

section \<open>JavaScript values\<close>

text \<open>
  A JavaScript number is a finite value, one of the two infinities, or NaN. Finite
  numbers are modelled as exact reals: binary rounding and overflow of doubles are not
  modelled, and the two zeros are one (the code never divides by a zero: every division
  is guarded by a test against 0).
\<close>

datatype jsnum = Fin real | PInf | NInf | NaN

text \<open>
  The field of a row is any primitive value; a property that is absent reads as
  \<open>Undefined\<close>. A string is a list of 8-bit characters, compared by their codes: the
  inputs of the model are the strings whose characters are below U+0100.
\<close>

datatype jsval = Undefined | Null | Bool bool | Num jsnum | Str string

text \<open>
  The functions of the host (the JavaScript engine) whose result depends on the full
  ECMAScript number grammar, on the shortest-digits printing of doubles, on the locale
  or on Unicode case mapping are parameters of the model.
\<close>

record host =
  stringToNumber :: "string \<Rightarrow> jsnum"
  numberToString :: "jsnum \<Rightarrow> string"
  toLocaleString :: "real \<Rightarrow> string"
  toUpperCase :: "string \<Rightarrow> string"
  toLowerCase :: "string \<Rightarrow> string"

fun isFinite :: "jsnum \<Rightarrow> bool" where
  "isFinite (Fin x) = True"
| "isFinite _ = False"

text \<open>\<open>Number.isFinite(v)\<close>: no coercion, only a finite number passes.\<close>

fun Number_isFinite :: "jsval \<Rightarrow> bool" where
  "Number_isFinite (Num n) = isFinite n"
| "Number_isFinite _ = False"

text \<open>\<open>Number(v)\<close>.\<close>

fun Number :: "host \<Rightarrow> jsval \<Rightarrow> jsnum" where
  "Number h Undefined = NaN"
| "Number h Null = Fin 0"
| "Number h (Bool b) = Fin (if b then 1 else 0)"
| "Number h (Num n) = n"
| "Number h (Str s) = stringToNumber h s"

text \<open>The relational operator \<open><\<close> on numbers; \<open>a > b\<close> is \<open>js_lt b a\<close>.\<close>

fun js_lt :: "jsnum \<Rightarrow> jsnum \<Rightarrow> bool" where
  "js_lt NaN b = False"
| "js_lt a NaN = False"
| "js_lt (Fin a) (Fin b) = (a < b)"
| "js_lt a NInf = False"
| "js_lt NInf b = True"
| "js_lt PInf b = False"
| "js_lt a PInf = True"

text \<open>\<open>a <= b\<close>: false when either side is NaN.\<close>

definition js_le :: "jsnum \<Rightarrow> jsnum \<Rightarrow> bool" where
  "js_le a b = (js_lt a b \<or> (a = b \<and> a \<noteq> NaN))"

fun js_sub :: "jsnum \<Rightarrow> jsnum \<Rightarrow> jsnum" where
  "js_sub NaN b = NaN"
| "js_sub a NaN = NaN"
| "js_sub (Fin a) (Fin b) = Fin (a - b)"
| "js_sub PInf PInf = NaN"
| "js_sub NInf NInf = NaN"
| "js_sub PInf b = PInf"
| "js_sub NInf b = NInf"
| "js_sub a PInf = NInf"
| "js_sub a NInf = PInf"

fun js_neg :: "jsnum \<Rightarrow> jsnum" where
  "js_neg (Fin a) = Fin (- a)"
| "js_neg PInf = NInf"
| "js_neg NInf = PInf"
| "js_neg NaN = NaN"

text \<open>Multiplication and division; a zero divisor is taken as \<open>+0\<close>.\<close>

fun js_mul :: "jsnum \<Rightarrow> jsnum \<Rightarrow> jsnum" where
  "js_mul NaN b = NaN"
| "js_mul a NaN = NaN"
| "js_mul (Fin a) (Fin b) = Fin (a * b)"
| "js_mul (Fin a) b = (if a = 0 then NaN else if 0 < a then b else js_neg b)"
| "js_mul a (Fin b) = (if b = 0 then NaN else if 0 < b then a else js_neg a)"
| "js_mul PInf b = b"
| "js_mul NInf b = js_neg b"

fun js_div :: "jsnum \<Rightarrow> jsnum \<Rightarrow> jsnum" where
  "js_div NaN b = NaN"
| "js_div a NaN = NaN"
| "js_div (Fin a) (Fin b) =
     (if b = 0 then (if a = 0 then NaN else if 0 < a then PInf else NInf) else Fin (a / b))"
| "js_div (Fin a) b = Fin 0"
| "js_div a (Fin b) = (if b < 0 then js_neg a else a)"
| "js_div a b = NaN"

text \<open>\<open>Math.round\<close>: the nearest integer, a tie going up; \<open>Math.abs\<close>.\<close>

fun Math_round :: "jsnum \<Rightarrow> jsnum" where
  "Math_round (Fin x) = Fin (of_int \<lfloor>x + 1 / 2\<rfloor>)"
| "Math_round n = n"

fun Math_abs :: "jsnum \<Rightarrow> jsnum" where
  "Math_abs (Fin x) = Fin \<bar>x\<bar>"
| "Math_abs NaN = NaN"
| "Math_abs n = PInf"

subsection \<open>Strings of numbers\<close>

definition digit_char :: "nat \<Rightarrow> char" where
  "digit_char n = ''0123456789'' ! n"

fun nat_to_string :: "nat \<Rightarrow> string" where
  "nat_to_string n =
     (if n < 10 then [digit_char n] else nat_to_string (n div 10) @ [digit_char (n mod 10)])"

definition int_to_string :: "int \<Rightarrow> string" where
  "int_to_string i = (if i < 0 then CHR ''-'' # nat_to_string (nat (- i)) else nat_to_string (nat i))"

text \<open>
  \<open>String(n)\<close> for a number: an integer up to \<open>2^53\<close> in magnitude prints as its
  decimal digits; the printing of any other finite number is the host's.
\<close>

definition num_to_string :: "host \<Rightarrow> jsnum \<Rightarrow> string" where
  "num_to_string h n =
     (case n of
        Fin x \<Rightarrow> (if of_int \<lfloor>x\<rfloor> = x \<and> \<bar>x\<bar> \<le> 9007199254740992 then int_to_string \<lfloor>x\<rfloor>
                  else numberToString h n)
      | PInf \<Rightarrow> ''Infinity''
      | NInf \<Rightarrow> ''-Infinity''
      | NaN \<Rightarrow> ''NaN'')"

text \<open>\<open>String(v)\<close> and the truth value of \<open>v\<close> in a condition.\<close>

fun String :: "host \<Rightarrow> jsval \<Rightarrow> string" where
  "String h Undefined = ''undefined''"
| "String h Null = ''null''"
| "String h (Bool b) = (if b then ''true'' else ''false'')"
| "String h (Num n) = num_to_string h n"
| "String h (Str s) = s"

fun truthy :: "jsval \<Rightarrow> bool" where
  "truthy Undefined = False"
| "truthy Null = False"
| "truthy (Bool b) = b"
| "truthy (Num n) = (case n of Fin x \<Rightarrow> x \<noteq> 0 | NaN \<Rightarrow> False | _ \<Rightarrow> True)"
| "truthy (Str s) = (s \<noteq> [])"

text \<open>\<open>a ?? b\<close>: the right operand only when the left one is null or undefined.\<close>

definition nullish :: "jsval \<Rightarrow> jsval \<Rightarrow> jsval" where
  "nullish a b = (if a = Undefined \<or> a = Null then b else a)"

section \<open>Rows and field accessors\<close>

record row =
  date :: jsval
  product :: jsval
  category :: jsval
  units :: jsval
  quantity :: jsval
  price :: jsval
  revenue :: jsval

text \<open>
  \<open>getQuantity\<close> returns a number that is finite on both of its paths, so its result
  is a real.
\<close>

definition getQuantity :: "host \<Rightarrow> row \<Rightarrow> real" where
  "getQuantity h r =
     (let q = nullish (units r) (quantity r);
          n = Number h q
      in case n of Fin x \<Rightarrow> x | _ \<Rightarrow> 0)"

definition getRevenue :: "host \<Rightarrow> row \<Rightarrow> real" where
  "getRevenue h r =
     (case revenue r of
        Num (Fin x) \<Rightarrow> x
      | _ \<Rightarrow> (let q = getQuantity h r;
                 p = Number h (price r)
             in case p of Fin y \<Rightarrow> q * y | _ \<Rightarrow> 0))"

section \<open>Growth between two values\<close>

record growth =
  pct :: jsnum
  direction :: string
  text' :: string

definition computeGrowth :: "host \<Rightarrow> jsnum \<Rightarrow> jsnum \<Rightarrow> growth" where
  "computeGrowth h current previous =
     (if \<not> isFinite previous \<or> previous = Fin 0 then
        (if js_lt (Fin 0) current
         then \<lparr>pct = Fin 100, direction = ''up'', text' = ''up from no prior sales''\<rparr>
         else \<lparr>pct = Fin 0, direction = ''flat'', text' = ''no change''\<rparr>)
      else
        (let p = Math_round (js_mul (js_div (js_sub current previous) previous) (Fin 100))
         in if js_lt (Fin 0) p then
              \<lparr>pct = p, direction = ''up'', text' = ''up '' @ num_to_string h p @ ''%''\<rparr>
            else if js_lt p (Fin 0) then
              \<lparr>pct = p, direction = ''down'',
               text' = ''down '' @ num_to_string h (Math_abs p) @ ''%''\<rparr>
            else \<lparr>pct = Fin 0, direction = ''flat'', text' = ''flat''\<rparr>))"

section \<open>Anomalies in a sequence of period totals\<close>

record periodValue =
  period :: string
  value' :: jsnum

record anomaly =
  a_period :: string
  a_value :: real
  a_average :: real
  a_type :: string
  a_message :: string

definition ANOMALY_CHANGE_THRESHOLD :: real where
  "ANOMALY_CHANGE_THRESHOLD = 0.5"

definition ANOMALY_STD_THRESHOLD :: real where
  "ANOMALY_STD_THRESHOLD = 2"

text \<open>The values kept by the filter \<open>Number.isFinite(v) && v >= 0\<close>.\<close>

fun finiteNonNegative :: "jsnum list \<Rightarrow> real list" where
  "finiteNonNegative [] = []"
| "finiteNonNegative (Fin x # vs) = (if 0 \<le> x then x # finiteNonNegative vs else finiteNonNegative vs)"
| "finiteNonNegative (v # vs) = finiteNonNegative vs"

text \<open>The body of the loop for one entry: nothing for a value that is not finite.\<close>

definition anomaliesOf :: "real \<Rightarrow> real \<Rightarrow> periodValue \<Rightarrow> anomaly list" where
  "anomaliesOf avg std p =
     (case value' p of
        Fin v \<Rightarrow>
          (let pctChange = (if avg \<noteq> 0 then \<bar>(v - avg) / avg\<bar> else 0);
               z = (if 0 < std then (v - avg) / std else 0);
               isSpike = (avg < v \<and> (ANOMALY_CHANGE_THRESHOLD \<le> pctChange \<or> ANOMALY_STD_THRESHOLD \<le> z));
               isDrop = (v < avg \<and> (ANOMALY_CHANGE_THRESHOLD \<le> pctChange \<or> z \<le> - ANOMALY_STD_THRESHOLD))
           in (if isSpike
               then [\<lparr>a_period = period p, a_value = v, a_average = avg, a_type = ''spike'',
                      a_message = ''Unusual spike in '' @ period p\<rparr>]
               else [])
            @ (if isDrop
               then [\<lparr>a_period = period p, a_value = v, a_average = avg, a_type = ''drop'',
                      a_message = ''Unusual drop in '' @ period p\<rparr>]
               else []))
      | _ \<Rightarrow> [])"

definition detectAnomalies :: "periodValue list \<Rightarrow> anomaly list" where
  "detectAnomalies periodValues =
     (let values = finiteNonNegative (map value' periodValues)
      in if length values < 2 then []
         else
           (let sum = foldl (\<lambda>a b. a + b) 0 values;
                avg = sum / real (length values);
                variance = foldl (\<lambda>acc v. acc + (v - avg)\<^sup>2) 0 values / real (length values);
                std = sqrt variance
            in concat (map (anomaliesOf avg std) periodValues)))"

section \<open>Dates\<close>

subsection \<open>The host's \<open>Date\<close>\<close>

text \<open>
  A \<open>Date\<close> is modelled by its local calendar fields, named after the methods that read
  them; the month index is 0 to 11. Every \<open>Date\<close> of the program is at local midnight,
  so the time of day is not part of the model.
\<close>

record Date =
  getFullYear :: int
  getMonth :: int
  getDate :: int

definition isLeapYear :: "int \<Rightarrow> bool" where
  "isLeapYear y = ((y mod 4 = 0 \<and> y mod 100 \<noteq> 0) \<or> y mod 400 = 0)"

definition daysInMonth :: "int \<Rightarrow> int \<Rightarrow> int" where
  "daysInMonth y m =
     (if m = 1 then (if isLeapYear y then 29 else 28)
      else if m = 3 \<or> m = 5 \<or> m = 8 \<or> m = 10 then 30
      else 31)"

definition nextDay :: "Date \<Rightarrow> Date" where
  "nextDay d =
     (if getDate d < daysInMonth (getFullYear d) (getMonth d) then d\<lparr>getDate := getDate d + 1\<rparr>
      else if getMonth d < 11 then d\<lparr>getMonth := getMonth d + 1, getDate := 1\<rparr>
      else \<lparr>getFullYear = getFullYear d + 1, getMonth = 0, getDate = 1\<rparr>)"

definition prevDay :: "Date \<Rightarrow> Date" where
  "prevDay d =
     (if 1 < getDate d then d\<lparr>getDate := getDate d - 1\<rparr>
      else if 0 < getMonth d
      then d\<lparr>getMonth := getMonth d - 1, getDate := daysInMonth (getFullYear d) (getMonth d - 1)\<rparr>
      else \<lparr>getFullYear = getFullYear d - 1, getMonth = 11, getDate = 31\<rparr>)"

fun iterate :: "nat \<Rightarrow> ('a \<Rightarrow> 'a) \<Rightarrow> 'a \<Rightarrow> 'a" where
  "iterate 0 f x = x"
| "iterate (Suc n) f x = iterate n f (f x)"

definition shiftDays :: "Date \<Rightarrow> int \<Rightarrow> Date" where
  "shiftDays d k = (if 0 \<le> k then iterate (nat k) nextDay d else iterate (nat (- k)) prevDay d)"

text \<open>
  \<open>new Date(year, monthIndex, day)\<close>: a year from 0 to 99 stands for 1900 + year, the
  month index is reduced to 0..11 with a carry into the year, and a day outside the month
  carries into the neighbouring months.
\<close>

definition fullYearOf :: "int \<Rightarrow> int" where
  "fullYearOf y = (if 0 \<le> y \<and> y \<le> 99 then 1900 + y else y)"

definition newDate :: "int \<Rightarrow> int \<Rightarrow> int \<Rightarrow> Date" where
  "newDate y mi d =
     shiftDays \<lparr>getFullYear = fullYearOf y + mi div 12, getMonth = mi mod 12, getDate = 1\<rparr> (d - 1)"

definition setDate :: "Date \<Rightarrow> int \<Rightarrow> Date" where
  "setDate d n = shiftDays (d\<lparr>getDate := 1\<rparr>) (n - 1)"

text \<open>Days since 1 January 1970, and the day of the week (0 is Sunday).\<close>

definition dayFromYear :: "int \<Rightarrow> int" where
  "dayFromYear y = 365 * (y - 1970) + (y - 1969) div 4 - (y - 1901) div 100 + (y - 1601) div 400"

definition dayNumber :: "Date \<Rightarrow> int" where
  "dayNumber d =
     dayFromYear (getFullYear d)
     + sum_list (map (\<lambda>i. daysInMonth (getFullYear d) (int i)) [0 ..< nat (getMonth d)])
     + (getDate d - 1)"

definition getDay :: "Date \<Rightarrow> int" where
  "getDay d = (dayNumber d + 4) mod 7"

subsection \<open>Parsing\<close>

record parsed =
  year :: int
  month :: int
  day :: int
  date' :: Date
  dayOfWeek :: int
  weekKey :: string

text \<open>White space and line terminators among the 8-bit characters (\<open>String.trim\<close>).\<close>

definition isWhiteSpace :: "char \<Rightarrow> bool" where
  "isWhiteSpace c = (of_char c \<in> {9, 10, 11, 12, 13, 32, 160 :: nat})"

definition trim :: "string \<Rightarrow> string" where
  "trim s = rev (dropWhile isWhiteSpace (rev (dropWhile isWhiteSpace s)))"

definition isDigit :: "char \<Rightarrow> bool" where
  "isDigit c = (c \<in> set ''0123456789'')"

definition digitValue :: "char \<Rightarrow> int" where
  "digitValue c = int (of_char c) - 48"

text \<open>\<open>parseInt(s, 10)\<close> on a string of digits.\<close>

definition parseInt :: "string \<Rightarrow> int" where
  "parseInt s = foldl (\<lambda>a c. 10 * a + digitValue c) 0 s"

definition padStart2 :: "string \<Rightarrow> string" where
  "padStart2 s = replicate (2 - length s) CHR ''0'' @ s"

text \<open>
  The two regular expressions: two digits, a dash, two digits, a dash, four digits; and
  four digits, a dash, two digits, a dash, two digits. Each returns its three groups in
  the order of the string.
\<close>

definition digitGroups :: "nat \<Rightarrow> nat \<Rightarrow> nat \<Rightarrow> string \<Rightarrow> (string \<times> string \<times> string) option" where
  "digitGroups a b c s =
     (let g1 = take a s; g2 = take b (drop (a + 1) s); g3 = drop (a + b + 2) s
      in if length s = a + b + c + 2 \<and> list_all isDigit g1 \<and> s ! a = CHR ''-''
            \<and> list_all isDigit g2 \<and> s ! (a + b + 1) = CHR ''-'' \<and> list_all isDigit g3
         then Some (g1, g2, g3) else None)"

definition match_ddmmyyyy :: "string \<Rightarrow> (string \<times> string \<times> string) option" where
  "match_ddmmyyyy s = digitGroups 2 2 4 s"

definition match_yyyymmdd :: "string \<Rightarrow> (string \<times> string \<times> string) option" where
  "match_yyyymmdd s = digitGroups 4 2 2 s"

definition getISOWeekKey :: "Date \<Rightarrow> string" where
  "getISOWeekKey d =
     (let d2 = setDate d (getDate d - getDay d + 1);
          y = getFullYear d2;
          m = padStart2 (int_to_string (getMonth d2 + 1));
          dd = padStart2 (int_to_string (getDate d2))
      in int_to_string y @ ''-'' @ m @ ''-'' @ dd)"

text \<open>
  The checks and the result that follow a match; the source repeats them in each of its
  two branches.
\<close>

definition checkedDate :: "int \<Rightarrow> int \<Rightarrow> int \<Rightarrow> parsed option" where
  "checkedDate yr mo dy =
     (if mo < 1 \<or> 12 < mo \<or> dy < 1 \<or> 31 < dy then None
      else
        (let d = newDate yr (mo - 1) dy
         in if getDate d \<noteq> dy \<or> getMonth d \<noteq> mo - 1 then None
            else Some \<lparr>year = yr, month = mo, day = dy, date' = d, dayOfWeek = getDay d,
                       weekKey = getISOWeekKey d\<rparr>))"

definition parseDate :: "jsval \<Rightarrow> parsed option" where
  "parseDate dateStr =
     (case dateStr of
        Str str \<Rightarrow>
          (if str = [] then None
           else
             (let s = trim str
              in case match_ddmmyyyy s of
                   Some (g1, g2, g3) \<Rightarrow> checkedDate (parseInt g3) (parseInt g2) (parseInt g1)
                 | None \<Rightarrow>
                     (case match_yyyymmdd s of
                        Some (g1, g2, g3) \<Rightarrow> checkedDate (parseInt g1) (parseInt g2) (parseInt g3)
                      | None \<Rightarrow> None)))
      | _ \<Rightarrow> None)"

section \<open>Aggregation\<close>

text \<open>
  A \<open>Map\<close> keeps its keys in the order of their first insertion: it is an association
  list, \<open>set\<close> replacing the value of a key in place or appending a new key. A \<open>Set\<close> is
  a list without duplicates, in insertion order.
\<close>

fun mapSet :: "'k \<Rightarrow> 'v \<Rightarrow> ('k \<times> 'v) list \<Rightarrow> ('k \<times> 'v) list" where
  "mapSet k v [] = [(k, v)]"
| "mapSet k v ((k', v') # m) = (if k' = k then (k, v) # m else (k', v') # mapSet k v m)"

definition mapGet :: "('k \<times> 'v) list \<Rightarrow> 'k \<Rightarrow> 'v option" where
  "mapGet m k = map_of m k"

definition mapKeys :: "('k \<times> 'v) list \<Rightarrow> 'k list" where
  "mapKeys m = map fst m"

definition mapValues :: "('k \<times> 'v) list \<Rightarrow> 'v list" where
  "mapValues m = map snd m"

definition setAdd :: "'a \<Rightarrow> 'a list \<Rightarrow> 'a list" where
  "setAdd x s = (if x \<in> set s then s else s @ [x])"

record agg =
  agg_revenue :: real
  agg_quantity :: real

record productAgg =
  p_product :: string
  p_revenue :: real
  p_quantity :: real
  p_category :: string

record categoryAgg =
  c_category :: string
  c_revenue :: real
  c_quantity :: real

definition normCat :: "host \<Rightarrow> jsval \<Rightarrow> string" where
  "normCat h c =
     (let s = trim (String h (nullish c (Str [])))
      in if s = [] then [] else toUpperCase h [hd s] @ toLowerCase h (tl s))"

text \<open>The expression \<open>String(row.product ?? "").trim() || "Unknown"\<close>.\<close>

definition productName :: "host \<Rightarrow> row \<Rightarrow> string" where
  "productName h r =
     (let s = trim (String h (nullish (product r) (Str []))) in if s = [] then ''Unknown'' else s)"

text \<open>The month key \<open>`${parsed.year}-${String(parsed.month).padStart(2, "0")}`\<close>.\<close>

definition monthKey :: "parsed \<Rightarrow> string" where
  "monthKey pd = int_to_string (year pd) @ ''-'' @ padStart2 (int_to_string (month pd))"

definition addToAgg :: "host \<Rightarrow> row \<Rightarrow> string \<Rightarrow> (string \<times> agg) list \<Rightarrow> (string \<times> agg) list" where
  "addToAgg h r key m =
     (let rev = getRevenue h r;
          qty = getQuantity h r;
          cur = (case mapGet m key of Some c \<Rightarrow> c | None \<Rightarrow> \<lparr>agg_revenue = 0, agg_quantity = 0\<rparr>)
      in mapSet key \<lparr>agg_revenue = agg_revenue cur + rev, agg_quantity = agg_quantity cur + qty\<rparr> m)"

definition aggregateByMonth :: "host \<Rightarrow> row list \<Rightarrow> (string \<times> agg) list" where
  "aggregateByMonth h rows =
     foldl (\<lambda>byMonth r.
              case parseDate (date r) of
                None \<Rightarrow> byMonth
              | Some pd \<Rightarrow> addToAgg h r (monthKey pd) byMonth)
           [] rows"

definition aggregateByWeek :: "host \<Rightarrow> row list \<Rightarrow> (string \<times> agg) list" where
  "aggregateByWeek h rows =
     foldl (\<lambda>byWeek r.
              case parseDate (date r) of
                None \<Rightarrow> byWeek
              | Some pd \<Rightarrow> addToAgg h r (weekKey pd) byWeek)
           [] rows"

definition groupByProduct :: "host \<Rightarrow> row list \<Rightarrow> productAgg list" where
  "groupByProduct h rows =
     mapValues
       (foldl (\<lambda>byProduct r.
                 let name = productName h r;
                     rev = getRevenue h r;
                     qty = getQuantity h r;
                     cat = normCat h (category r);
                     cur = (case mapGet byProduct name of
                              Some c \<Rightarrow> c
                            | None \<Rightarrow> \<lparr>p_product = name, p_revenue = 0, p_quantity = 0, p_category = cat\<rparr>)
                 in mapSet name (cur\<lparr>p_revenue := p_revenue cur + rev, p_quantity := p_quantity cur + qty\<rparr>)
                      byProduct)
              [] rows)"

definition groupByCategory :: "host \<Rightarrow> row list \<Rightarrow> categoryAgg list" where
  "groupByCategory h rows =
     mapValues
       (foldl (\<lambda>byCat r.
                 let cat = (let c = normCat h (category r) in if c = [] then ''Uncategorized'' else c);
                     rev = getRevenue h r;
                     qty = getQuantity h r;
                     cur = (case mapGet byCat cat of
                              Some c \<Rightarrow> c
                            | None \<Rightarrow> \<lparr>c_category = cat, c_revenue = 0, c_quantity = 0\<rparr>)
                 in mapSet cat (cur\<lparr>c_revenue := c_revenue cur + rev, c_quantity := c_quantity cur + qty\<rparr>)
                      byCat)
              [] rows)"

section \<open>Insight generation\<close>

record insights =
  findings :: "string list"
  actions :: "string list"
  warnings :: "string list"

text \<open>The argument of \<open>generateInsights\<close>: an array of rows, or any other value.\<close>

datatype rowsArg = NotAnArray | RowArray "row list"

definition MIN_ROWS_FOR_INSIGHTS :: nat where
  "MIN_ROWS_FOR_INSIGHTS = 3"

definition CONCENTRATION_WARN_PCT :: real where
  "CONCENTRATION_WARN_PCT = 60"

definition MONTH_NAMES :: "string list" where
  "MONTH_NAMES = [''January'', ''February'', ''March'', ''April'', ''May'', ''June'',
                  ''July'', ''August'', ''September'', ''October'', ''November'', ''December'']"

definition DAY_NAMES :: "string list" where
  "DAY_NAMES = [''Sunday'', ''Monday'', ''Tuesday'', ''Wednesday'', ''Thursday'', ''Friday'', ''Saturday'']"

text \<open>An array element inside a template: \<open>undefined\<close> out of range.\<close>

definition nameAt :: "string list \<Rightarrow> int \<Rightarrow> string" where
  "nameAt names i = (if 0 \<le> i \<and> i < int (length names) then names ! nat i else ''undefined'')"

text \<open>
  The em dash of four of the messages is not an 8-bit character; it is written as its
  three UTF-8 bytes.
\<close>

definition emDash :: string where
  "emDash = [CHR 0xE2, CHR 0x80, CHR 0x94]"

definition formatCurrency :: "host \<Rightarrow> real \<Rightarrow> string" where
  "formatCurrency h n = toLocaleString h n"

text \<open>\<open>`${Math.round(x)}`\<close> for a finite \<open>x\<close>.\<close>

definition roundText :: "host \<Rightarrow> real \<Rightarrow> string" where
  "roundText h x = num_to_string h (Math_round (Fin x))"

fun join :: "string \<Rightarrow> string list \<Rightarrow> string" where
  "join sep [] = []"
| "join sep [x] = x"
| "join sep (x # y # ys) = x @ sep @ join sep (y # ys)"

fun splitOn :: "char \<Rightarrow> string \<Rightarrow> string list" where
  "splitOn c [] = [[]]"
| "splitOn c (x # xs) =
     (if x = c then [] # splitOn c xs
      else (case splitOn c xs of w # ws \<Rightarrow> (x # w) # ws | [] \<Rightarrow> [[x]]))"

text \<open>\<open>[...new Set(arr)]\<close>: the elements in the order of their first occurrence.\<close>

definition uniq :: "'a list \<Rightarrow> 'a list" where
  "uniq arr = foldl (\<lambda>s x. setAdd x s) [] arr"

text \<open>\<open>m.get(k) || 0\<close> on a map of numbers.\<close>

definition getOr0 :: "('k \<times> real) list \<Rightarrow> 'k \<Rightarrow> real" where
  "getOr0 m k = (case mapGet m k of Some v \<Rightarrow> v | None \<Rightarrow> 0)"

text \<open>
  \<open>m.get(k).revenue\<close>, for a key \<open>k\<close> taken from the keys of \<open>m\<close>: the lookup
  succeeds at every call.
\<close>

definition revenueAt :: "(string \<times> agg) list \<Rightarrow> string \<Rightarrow> real" where
  "revenueAt m k = (case mapGet m k of Some a \<Rightarrow> agg_revenue a | None \<Rightarrow> 0)"

subsection \<open>Data quality\<close>

record quality =
  missingDates :: nat
  invalidQty :: nat
  invalidPrice :: nat
  seenKeys :: "string list"
  duplicateCount :: nat

definition qualityStep :: "host \<Rightarrow> quality \<Rightarrow> row \<Rightarrow> quality" where
  "qualityStep h st r =
     (let st1 = (if \<not> truthy (date r) \<or> parseDate (date r) = None
                 then st\<lparr>missingDates := missingDates st + 1\<rparr> else st);
          q = getQuantity h r;
          st2 = (if q \<le> 0 \<and> (units r \<noteq> Undefined \<or> quantity r \<noteq> Undefined)
                 then st1\<lparr>invalidQty := invalidQty st1 + 1\<rparr> else st1);
          p = Number h (price r);
          st3 = (if isFinite p \<and> js_lt p (Fin 0)
                 then st2\<lparr>invalidPrice := invalidPrice st2 + 1\<rparr> else st2);
          key = String h (date r) @ ''-'' @ String h (product r) @ ''-'' @ String h (category r)
                @ ''-'' @ num_to_string h (Fin q) @ ''-'' @ num_to_string h p;
          st4 = (if key \<in> set (seenKeys st3)
                 then st3\<lparr>duplicateCount := duplicateCount st3 + 1\<rparr> else st3)
      in st4\<lparr>seenKeys := setAdd key (seenKeys st4)\<rparr>)"

definition dataQuality :: "host \<Rightarrow> row list \<Rightarrow> string list" where
  "dataQuality h rows =
     (let st = foldl (qualityStep h)
                 \<lparr>missingDates = 0, invalidQty = 0, invalidPrice = 0, seenKeys = [],
                  duplicateCount = 0\<rparr> rows
      in (if 0 < missingDates st
          then [nat_to_string (missingDates st) @ '' row(s) have missing or invalid dates. Check your data.'']
          else [])
       @ (if 0 < invalidQty st
          then [nat_to_string (invalidQty st) @ '' row(s) have zero or invalid quantity.'']
          else [])
       @ (if 0 < invalidPrice st
          then [nat_to_string (invalidPrice st) @ '' row(s) have negative price.'']
          else [])
       @ (if 0 < duplicateCount st
          then [nat_to_string (duplicateCount st) @ '' possible duplicate row(s). Review for data entry errors.'']
          else []))"

subsection \<open>Trend\<close>

text \<open>
  The month of a month key: \<open>parseInt\<close> of the second of the fields between dashes.
\<close>

definition monthOfKey :: "string \<Rightarrow> int" where
  "monthOfKey k = (case splitOn CHR ''-'' k of y # m # rest \<Rightarrow> parseInt m | _ \<Rightarrow> 0)"

definition weeklyTrend :: "host \<Rightarrow> (string \<times> agg) list \<Rightarrow> string list \<Rightarrow> string option \<times> string option" where
  "weeklyTrend h byWeek weekKeys =
     (let lastKey = weekKeys ! (length weekKeys - 1);
          prevKey = weekKeys ! (length weekKeys - 2);
          lastRev = revenueAt byWeek lastKey;
          prevRev = revenueAt byWeek prevKey;
          g = computeGrowth h (Fin lastRev) (Fin prevRev)
      in (Some (''Revenue is '' @ text' g @ '' this week vs last week ($'' @ formatCurrency h lastRev
                @ '' vs $'' @ formatCurrency h prevRev @ '').''),
          if direction g = ''up'' then Some ''Keep up the momentum; consider restocking best sellers.''
          else if direction g = ''down''
          then Some ''Check if stock ran out or demand dipped; promote top products.''
          else None))"

definition monthlyTrend :: "host \<Rightarrow> (string \<times> agg) list \<Rightarrow> string list \<Rightarrow> string option \<times> string option" where
  "monthlyTrend h byMonth monthKeys =
     (let lastKey = monthKeys ! (length monthKeys - 1);
          prevKey = monthKeys ! (length monthKeys - 2);
          lastRev = revenueAt byMonth lastKey;
          prevRev = revenueAt byMonth prevKey;
          g = computeGrowth h (Fin lastRev) (Fin prevRev);
          lastLabel = nameAt MONTH_NAMES (monthOfKey lastKey - 1);
          prevLabel = nameAt MONTH_NAMES (monthOfKey prevKey - 1)
      in (Some (''Revenue is '' @ text' g @ '' in '' @ lastLabel @ '' vs '' @ prevLabel @ '' ($''
                @ formatCurrency h lastRev @ '' vs $'' @ formatCurrency h prevRev @ '').''),
          if direction g = ''up'' then Some ''Keep stock levels healthy for your best sellers.''
          else if direction g = ''down''
          then Some ''Focus on promoting your top 3 products or run a small promotion.''
          else None))"

text \<open>The trend step: the finding and the action it leaves, each possibly absent.\<close>

definition trend :: "host \<Rightarrow> row list \<Rightarrow> string option \<times> string option" where
  "trend h rows =
     (let byMonth = aggregateByMonth h rows;
          monthKeys = sort (mapKeys byMonth);
          useWeekly = (length monthKeys < 2)
      in if useWeekly \<and> length monthKeys = 0 then
           (let byWeek = aggregateByWeek h rows;
                weekKeys = sort (mapKeys byWeek)
            in if 2 \<le> length weekKeys then weeklyTrend h byWeek weekKeys else (None, None))
         else if 2 \<le> length monthKeys then monthlyTrend h byMonth monthKeys
         else (None, None))"

subsection \<open>Products and categories\<close>

text \<open>
  \<open>sort\<close> with the comparator \<open>(a, b) => b.revenue - a.revenue\<close> is a stable sort
  by decreasing revenue: \<open>sort_key\<close> on the negated key.
\<close>

definition topProducts :: "host \<Rightarrow> productAgg list \<Rightarrow> real \<Rightarrow> string list \<times> string list" where
  "topProducts h byProduct totalRevenue =
     (let byRevenue = sort_key (\<lambda>p. - p_revenue p) byProduct;
          byQty = sort_key (\<lambda>p. - p_quantity p) byProduct;
          top3Revenue = take 3 byRevenue;
          top3Qty = take 3 byQty
      in ((if top3Revenue \<noteq> []
           then [''Top 3 products by revenue: '' @ join '', '' (map p_product top3Revenue) @ ''.'']
           else [])
        @ (if top3Qty \<noteq> [] \<and> 0 < totalRevenue
           then [''Top 3 products by units sold: '' @ join '', '' (map p_product top3Qty) @ ''.'']
           else []),
          (if top3Revenue \<noteq> []
           then [''Restock and promote: '' @ p_product (hd top3Revenue) @ ''.'']
           else [])))"

definition revShare :: "real \<Rightarrow> productAgg \<Rightarrow> real" where
  "revShare totalRevenue p = (if 0 < totalRevenue then p_revenue p / totalRevenue * 100 else 0)"

definition qtyShare :: "real \<Rightarrow> productAgg \<Rightarrow> real" where
  "qtyShare totalQuantity p = (if 0 < totalQuantity then p_quantity p / totalQuantity * 100 else 0)"

definition volumeMismatch :: "host \<Rightarrow> productAgg list \<Rightarrow> real \<Rightarrow> real \<Rightarrow> string list \<times> string list" where
  "volumeMismatch h byProduct totalRevenue totalQuantity =
     (case List.find (\<lambda>p. 15 \<le> qtyShare totalQuantity p \<and> revShare totalRevenue p < 5 \<and> 0 < p_revenue p)
             byProduct of
        None \<Rightarrow> ([], [])
      | Some p \<Rightarrow>
          ([p_product p @ '' sells a lot ('' @ roundText h (qtyShare totalQuantity p)
            @ ''% of units) but brings in only '' @ roundText h (revShare totalRevenue p)
            @ ''% of revenue.''],
           [''Review price or bundles for '' @ p_product p
            @ '', you might be able to earn more per unit.'']))"

definition categoryLeader :: "host \<Rightarrow> categoryAgg list \<Rightarrow> string list \<times> string list" where
  "categoryLeader h byCategory =
     (if 0 < length byCategory then
        (let sortedCat = sort_key (\<lambda>c. - c_revenue c) byCategory;
             topCat = hd sortedCat
         in ([c_category topCat @ '' is your top category ($'' @ formatCurrency h (c_revenue topCat)
              @ '' revenue).''],
             [''Focus on category '' @ [CHR 0x22] @ c_category topCat @ [CHR 0x22]
              @ '', it drives the most revenue.'']))
      else ([], []))"

subsection \<open>Growth and decline of categories\<close>

record catTrend =
  fastestCat :: "string option"
  fastestGrowth :: jsnum
  decliningCat :: "string option"
  decliningGrowth :: jsnum

definition catMonthMapOf :: "host \<Rightarrow> row list \<Rightarrow> (string \<times> real) list" where
  "catMonthMapOf h rows =
     foldl (\<lambda>m r.
              case parseDate (date r) of
                None \<Rightarrow> m
              | Some pd \<Rightarrow>
                  (let key = normCat h (category r) @ ''__'' @ monthKey pd;
                       rev = getRevenue h r
                   in mapSet key (getOr0 m key + rev) m))
           [] rows"

definition catTrendStep :: "(string \<times> real) list \<Rightarrow> string \<Rightarrow> string \<Rightarrow> catTrend \<Rightarrow> string \<Rightarrow> catTrend" where
  "catTrendStep catMonthMap lastKey prevKey st cat =
     (let last = getOr0 catMonthMap (cat @ ''__'' @ lastKey);
          prev = getOr0 catMonthMap (cat @ ''__'' @ prevKey)
      in if 0 < prev then
           (let g = (last - prev) / prev * 100;
                st1 = (if js_lt (fastestGrowth st) (Fin g) \<and> prev < last
                       then st\<lparr>fastestGrowth := Fin g, fastestCat := Some cat\<rparr> else st)
            in if js_lt (Fin g) (decliningGrowth st1) \<and> last < prev
               then st1\<lparr>decliningGrowth := Fin g, decliningCat := Some cat\<rparr> else st1)
         else st)"

definition categoryGrowth :: "host \<Rightarrow> row list \<Rightarrow> categoryAgg list \<Rightarrow> string list \<Rightarrow> string list \<times> string list" where
  "categoryGrowth h rows byCategory monthKeys =
     (let catMonthMap = catMonthMapOf h rows
      in if 2 \<le> length monthKeys then
           (let lastKey = monthKeys ! (length monthKeys - 1);
                prevKey = monthKeys ! (length monthKeys - 2);
                cats = uniq (map c_category byCategory);
                st = foldl (catTrendStep catMonthMap lastKey prevKey)
                       \<lparr>fastestCat = None, fastestGrowth = NInf, decliningCat = None,
                        decliningGrowth = PInf\<rparr> cats;
                fast = (case fastestCat st of
                          None \<Rightarrow> ([], [])
                        | Some c \<Rightarrow>
                            if c \<noteq> [] then
                              ([c @ '' is your fastest-growing category (up ''
                                @ num_to_string h (Math_round (fastestGrowth st)) @ ''% vs last period).''],
                               [''Promote '' @ c @ '' '' @ emDash @ '' it is growing.''])
                            else ([], []));
                decl = (case decliningCat st of
                          None \<Rightarrow> ([], [])
                        | Some c \<Rightarrow>
                            if c \<noteq> [] \<and> js_lt (decliningGrowth st) (Fin (- 10)) then
                              ([c @ '' revenue is down ''
                                @ num_to_string h (Math_round (Math_abs (decliningGrowth st)))
                                @ ''% vs last period.''],
                               [''Check why '' @ c @ '' is declining '' @ emDash @ '' restock or run a promo.''])
                            else ([], []))
            in (fst fast @ fst decl, snd fast @ snd decl))
         else ([], []))"

subsection \<open>Concentration\<close>

definition concentration ::
  "host \<Rightarrow> productAgg list \<Rightarrow> real \<Rightarrow> string list \<times> string list \<times> string list" where
  "concentration h byProduct totalRevenue =
     (let byRevenue = sort_key (\<lambda>p. - p_revenue p) byProduct;
          top3Revenue = take 3 byRevenue
      in if 0 < totalRevenue \<and> 0 < length byRevenue then
           (let top1Rev = (case top3Revenue of p # ps \<Rightarrow> p_revenue p | [] \<Rightarrow> 0);
                top3Rev = foldl (\<lambda>s p. s + p_revenue p) 0 (take 3 top3Revenue);
                pct1 = Math_round (Fin (top1Rev / totalRevenue * 100));
                pct3 = Math_round (Fin (top3Rev / totalRevenue * 100))
            in ([num_to_string h pct1 @ ''% of revenue comes from your top product; ''
                 @ num_to_string h pct3 @ ''% from the top 3.''],
                if js_le (Fin CONCENTRATION_WARN_PCT) pct3
                then ([''Try to grow sales of other products so one slow month does not hurt too much.''],
                      [''Over '' @ num_to_string h pct3
                       @ ''% of revenue depends on 3 products. Consider diversifying to reduce risk.''])
                else ([], [])))
         else ([], [], []))"

subsection \<open>Steady demand and recent spike\<close>

definition periodKeyOf :: "bool \<Rightarrow> parsed \<Rightarrow> string" where
  "periodKeyOf useWeekly pd = (if useWeekly then weekKey pd else monthKey pd)"

definition productPeriodsOf :: "host \<Rightarrow> bool \<Rightarrow> row list \<Rightarrow> (string \<times> string list) list" where
  "productPeriodsOf h useWeekly rows =
     foldl (\<lambda>m r.
              case parseDate (date r) of
                None \<Rightarrow> m
              | Some pd \<Rightarrow>
                  (let periodKey = periodKeyOf useWeekly pd;
                       name = productName h r;
                       set = (case mapGet m name of Some s \<Rightarrow> s | None \<Rightarrow> [])
                   in mapSet name (setAdd periodKey set) m))
           [] rows"

text \<open>
  \<open>new Set(rows.map((r) => parseDate(r.date)?.weekKey).filter(Boolean)).size\<close>, or the
  number of month keys.
\<close>

definition periodCountOf :: "bool \<Rightarrow> row list \<Rightarrow> string list \<Rightarrow> nat" where
  "periodCountOf useWeekly rows monthKeys =
     (if useWeekly
      then length (uniq (filter (\<lambda>k. k \<noteq> [])
                     (List.map_filter (\<lambda>r. map_option weekKey (parseDate (date r))) rows)))
      else length monthKeys)"

definition steadyDemand :: "(string \<times> string list) list \<Rightarrow> nat \<Rightarrow> string list \<times> string list" where
  "steadyDemand productPeriods periodCount =
     (if 2 \<le> periodCount then
        (let consistent = map fst (filter (\<lambda>(product, set). min 3 periodCount \<le> length set) productPeriods)
         in case consistent of
              [] \<Rightarrow> ([], [])
            | name # others \<Rightarrow>
                ([name @ '' sells in many periods '' @ emDash @ '' steady demand.''],
                 [''Keep '' @ name @ '' in stock; reorder before you run out.'']))
      else ([], []))"

definition recentSpike ::
  "host \<Rightarrow> row list \<Rightarrow> bool \<Rightarrow> string list \<Rightarrow> productAgg list \<Rightarrow> (string \<times> string list) list
   \<Rightarrow> string list \<times> string list" where
  "recentSpike h rows useWeekly monthKeys byProduct productPeriods =
     (if 2 \<le> length monthKeys \<or> (useWeekly \<and> 2 \<le> length (mapKeys (aggregateByWeek h rows))) then
        (let byProdPeriod =
               foldl (\<lambda>m r.
                        case parseDate (date r) of
                          None \<Rightarrow> m
                        | Some pd \<Rightarrow>
                            (let key = productName h r @ ''__'' @ periodKeyOf useWeekly pd
                             in mapSet key (getOr0 m key + getRevenue h r) m))
                     [] rows;
             weekKeys = sort (mapKeys (aggregateByWeek h rows));
             lastPeriod = (if 2 \<le> length monthKeys then Some (monthKeys ! (length monthKeys - 1))
                           else if 0 < length weekKeys then Some (weekKeys ! (length weekKeys - 1))
                           else None)
         in case lastPeriod of
              None \<Rightarrow> ([], [])
            | Some lp \<Rightarrow>
                if lp = [] then ([], [])
                else
                  (case List.find
                          (\<lambda>p. let lastRev = getOr0 byProdPeriod (p_product p @ ''__'' @ lp);
                                   periods = (if useWeekly
                                              then (case mapGet productPeriods (p_product p) of
                                                      Some s \<Rightarrow> length s | None \<Rightarrow> 0)
                                              else length monthKeys);
                                   avgRev = (if 0 < periods then p_revenue p / real periods else 0)
                               in 0 < avgRev \<and> avgRev * 1.5 \<le> lastRev)
                          byProduct of
                     None \<Rightarrow> ([], [])
                   | Some p \<Rightarrow>
                       ([p_product p @ '' had a recent spike in sales '' @ emDash
                         @ '' might need extra stock.''],
                        [''Restock '' @ p_product p @ '' to avoid running out.''])))
      else ([], []))"

subsection \<open>Seasonality and anomalies\<close>

definition seasonality :: "host \<Rightarrow> row list \<Rightarrow> string list \<times> string list" where
  "seasonality h rows =
     (let (byDay, byMonthOnly) =
            foldl (\<lambda>(byDay, byMonthOnly) r.
                     case parseDate (date r) of
                       None \<Rightarrow> (byDay, byMonthOnly)
                     | Some pd \<Rightarrow>
                         (let rev = getRevenue h r
                          in (mapSet (dayOfWeek pd) (getOr0 byDay (dayOfWeek pd) + rev) byDay,
                              mapSet (month pd) (getOr0 byMonthOnly (month pd) + rev) byMonthOnly)))
                  ([], []) rows;
          best = (if 3 \<le> length byDay then
                    (let bestDayEntry = hd (sort_key (\<lambda>e. - snd e) byDay);
                         dayName = nameAt DAY_NAMES (fst bestDayEntry)
                     in ([''Your best day for sales is '' @ dayName @ ''.''],
                         [''Schedule promotions or extra stock for '' @ dayName @ ''s.'']))
                  else ([], []));
          bestMonth = (if 3 \<le> length byMonthOnly then
                         (let bestMonthEntry = hd (sort_key (\<lambda>e. - snd e) byMonthOnly);
                              monthName = nameAt MONTH_NAMES (fst bestMonthEntry - 1)
                          in [''Your best month for sales is '' @ monthName @ ''.''])
                       else [])
      in (fst best @ bestMonth, snd best))"

text \<open>
  The weekly entries are sorted with \<open>localeCompare\<close>; on week keys, which are digits
  and dashes, it is taken to order as the characters do.
\<close>

definition periodValuesOf :: "host \<Rightarrow> row list \<Rightarrow> (string \<times> agg) list \<Rightarrow> string list \<Rightarrow> periodValue list" where
  "periodValuesOf h rows byMonth monthKeys =
     (if 2 \<le> length monthKeys
      then map (\<lambda>k. \<lparr>period = nameAt MONTH_NAMES (monthOfKey k - 1), value' = Fin (revenueAt byMonth k)\<rparr>)
             monthKeys
      else map (\<lambda>(k, v). \<lparr>period = ''Week '' @ k, value' = Fin (agg_revenue v)\<rparr>)
             (sort_key fst (aggregateByWeek h rows)))"

definition anomalyInsights :: "host \<Rightarrow> anomaly list \<Rightarrow> string list \<times> string list" where
  "anomalyInsights h anomalies =
     (concat (map (\<lambda>a. if a_type a = ''spike''
                        then [''Unusual revenue spike in '' @ a_period a @ '' ($''
                              @ formatCurrency h (a_value a) @ '' vs avg $''
                              @ formatCurrency h (a_average a)
                              @ ''). Check for bulk orders or data errors.'']
                        else []) anomalies),
      concat (map (\<lambda>a. if a_type a = ''drop''
                        then [''Revenue dropped in '' @ a_period a @ ''. Confirm if real or a data issue.'']
                        else []) anomalies))"

subsection \<open>The pipeline\<close>

text \<open>
  Everything the steps push, in the order of the pushes, before the final deduplication
  and truncation. The second parameter of the source, \<open>filters\<close>, is never read.
\<close>

definition collectInsights :: "host \<Rightarrow> row list \<Rightarrow> insights" where
  "collectInsights h rows =
     (let totalRevenue = foldl (\<lambda>sum r. sum + getRevenue h r) 0 rows;
          totalQuantity = foldl (\<lambda>sum r. sum + getQuantity h r) 0 rows;
          quality = dataQuality h rows;
          byMonth = aggregateByMonth h rows;
          monthKeys = sort (mapKeys byMonth);
          useWeekly = (length monthKeys < 2);
          (trendFinding, trendAction) = trend h rows;
          byProduct = groupByProduct h rows;
          (topF, topA) = topProducts h byProduct totalRevenue;
          (mismatchF, mismatchA) = volumeMismatch h byProduct totalRevenue totalQuantity;
          byCategory = groupByCategory h rows;
          (leaderF, leaderA) = categoryLeader h byCategory;
          (growthF, growthA) = categoryGrowth h rows byCategory monthKeys;
          (concF, concA, concW) = concentration h byProduct totalRevenue;
          productPeriods = productPeriodsOf h useWeekly rows;
          periodCount = periodCountOf useWeekly rows monthKeys;
          (steadyF, steadyA) = steadyDemand productPeriods periodCount;
          (spikeF, spikeA) = recentSpike h rows useWeekly monthKeys byProduct productPeriods;
          (seasonF, seasonA) = seasonality h rows;
          (anomalyF, anomalyW) = anomalyInsights h (detectAnomalies (periodValuesOf h rows byMonth monthKeys))
      in \<lparr>findings = (case trendFinding of Some f \<Rightarrow> [f] | None \<Rightarrow> []) @ topF @ mismatchF @ leaderF
                      @ growthF @ concF @ steadyF @ spikeF @ seasonF @ anomalyF,
          actions = (case trendAction of Some a \<Rightarrow> [a] | None \<Rightarrow> []) @ topA @ mismatchA @ leaderA
                     @ growthA @ concA @ steadyA @ spikeA @ seasonA,
          warnings = quality @ concW @ anomalyW\<rparr>)"

definition generateInsights :: "host \<Rightarrow> rowsArg \<Rightarrow> insights" where
  "generateInsights h arg =
     (case arg of
        NotAnArray \<Rightarrow> \<lparr>findings = [], actions = [], warnings = []\<rparr>
      | RowArray rows \<Rightarrow>
          if length rows < MIN_ROWS_FOR_INSIGHTS then \<lparr>findings = [], actions = [], warnings = []\<rparr>
          else
            (let c = collectInsights h rows
             in \<lparr>findings = take 6 (uniq (findings c)),
                 actions = take 5 (uniq (actions c)),
                 warnings = uniq (warnings c)\<rparr>))"

section \<open>Reference notions and sample data\<close>

text \<open>
  Rounding to the nearest integer with a tie going away from zero, as the specification
  words the rounding of the growth percentage.
\<close>

definition round_half_away :: "real \<Rightarrow> int" where
  "round_half_away x = (if x < 0 then - \<lfloor>- x + 1 / 2\<rfloor> else \<lfloor>x + 1 / 2\<rfloor>)"

text \<open>
  A host for concrete inputs. It reads a string of decimal digits as a number and maps
  the ASCII letters between the cases; it prints an amount as the digits of its nearest
  integer, without grouping. Its other values are placeholders, and no statement below
  depends on one.
\<close>

definition asciiUpper :: "char \<Rightarrow> char" where
  "asciiUpper c = (if CHR ''a'' \<le> c \<and> c \<le> CHR ''z'' then char_of (of_char c - (32 :: nat)) else c)"

definition asciiLower :: "char \<Rightarrow> char" where
  "asciiLower c = (if CHR ''A'' \<le> c \<and> c \<le> CHR ''Z'' then char_of (of_char c + (32 :: nat)) else c)"

definition plainHost :: host where
  "plainHost =
     \<lparr>stringToNumber = (\<lambda>s. let t = trim s
                            in if t = [] then Fin 0
                               else if list_all isDigit t then Fin (of_int (parseInt t)) else NaN),
      numberToString = (\<lambda>n. ''?''),
      toLocaleString = (\<lambda>x. int_to_string (round_half_away x)),
      toUpperCase = map asciiUpper,
      toLowerCase = map asciiLower\<rparr>"

text \<open>A row with text fields and numeric units and price, as the dashboard builds them.\<close>

definition saleRow :: "string \<Rightarrow> string \<Rightarrow> string \<Rightarrow> real \<Rightarrow> real \<Rightarrow> row" where
  "saleRow d p c u pr =
     \<lparr>date = Str d, product = Str p, category = Str c, units = Num (Fin u), quantity = Undefined,
      price = Num (Fin pr), revenue = Undefined\<rparr>"








text \<open>
  The two accepted formats, as renderings of a day, a month and a year in decimal
  digits.
\<close>

definition twoDigits :: "int \<Rightarrow> string" where
  "twoDigits n = [digit_char (nat (n div 10)), digit_char (nat (n mod 10))]"

definition fourDigits :: "int \<Rightarrow> string" where
  "fourDigits n = twoDigits (n div 100) @ twoDigits (n mod 100)"

definition ddmmyyyy :: "int \<Rightarrow> int \<Rightarrow> int \<Rightarrow> string" where
  "ddmmyyyy d m y = twoDigits d @ ''-'' @ twoDigits m @ ''-'' @ fourDigits y"

definition yyyymmdd :: "int \<Rightarrow> int \<Rightarrow> int \<Rightarrow> string" where
  "yyyymmdd y m d = fourDigits y @ ''-'' @ twoDigits m @ ''-'' @ twoDigits d"

text \<open>Three sales of January 2025, in two weeks of that one month.\<close>

definition januaryRows :: "row list" where
  "januaryRows = [saleRow ''01-01-2025'' ''A'' ''X'' 10 10, saleRow ''08-01-2025'' ''B'' ''X'' 5 10,
                  saleRow ''09-01-2025'' ''A'' ''X'' 10 10]"

text \<open>
  Deduplication that keeps the first occurrence of each element, in order: the element
  at position \<open>i\<close> stays exactly when it does not occur before position \<open>i\<close>.
\<close>

definition firstOccurrences :: "'a list \<Rightarrow> 'a list" where
  "firstOccurrences xs = map (\<lambda>i. xs ! i) (filter (\<lambda>i. xs ! i \<notin> set (take i xs)) [0 ..< length xs])"

text \<open>The finding of the three products with the largest revenue.\<close>

definition top3Finding :: "host \<Rightarrow> row list \<Rightarrow> string" where
  "top3Finding h rows =
     ''Top 3 products by revenue: ''
     @ join '', '' (map p_product (take 3 (sort_key (\<lambda>p. - p_revenue p) (groupByProduct h rows)))) @ ''.''"

text \<open>
  A date of the calendar, the ISO rendering of a date, and the number of days of a year
  before a month.
\<close>

definition validDate :: "Date \<Rightarrow> bool" where
  "validDate d \<longleftrightarrow> 0 \<le> getMonth d \<and> getMonth d \<le> 11 \<and> 1 \<le> getDate d
     \<and> getDate d \<le> daysInMonth (getFullYear d) (getMonth d)"

definition isoDate :: "Date \<Rightarrow> string" where
  "isoDate d = int_to_string (getFullYear d) @ ''-'' @ padStart2 (int_to_string (getMonth d + 1))
     @ ''-'' @ padStart2 (int_to_string (getDate d))"

definition daysBefore :: "int \<Rightarrow> int \<Rightarrow> int" where
  "daysBefore y m = sum_list (map (\<lambda>i. daysInMonth y (int i)) [0 ..< nat m])"

section \<open>Properties of the field accessors\<close>

text \<open>
  Claim C10. \<open>getQuantity\<close> falls back from \<open>units\<close> to \<open>quantity\<close> only when
  \<open>units\<close> is null or undefined: with \<open>units: 0\<close> and \<open>quantity: 5\<close> it returns 0,
  the zero counting as present; with \<open>units\<close> null (or undefined) and \<open>quantity: 5\<close>
  it returns 5. In general the field that is read is \<open>quantity\<close> exactly when \<open>units\<close>
  is null or undefined, whatever the truth value of \<open>units\<close>.
\<close>

theorem getQuantity_fallback_only_nullish:
  "getQuantity h (r\<lparr>units := Num (Fin 0), quantity := Num (Fin 5)\<rparr>) = 0
   \<and> getQuantity h (r\<lparr>units := Null, quantity := Num (Fin 5)\<rparr>) = 5
   \<and> getQuantity h (r\<lparr>units := Undefined, quantity := Num (Fin 5)\<rparr>) = 5
   \<and> getQuantity h r =
       (case Number h (if units r = Null \<or> units r = Undefined then quantity r else units r) of
          Fin x \<Rightarrow> x | _ \<Rightarrow> 0)"
  by (simp add: getQuantity_def nullish_def)

text \<open>
  Claim C8. \<open>getQuantity\<close> reads \<open>units\<close>, or \<open>quantity\<close> when \<open>units\<close> is absent,
  coerces it with \<open>Number\<close>, and returns that number when it is finite and 0 when it is
  not. \<open>getRevenue\<close> returns \<open>row.revenue\<close> unchanged when it is a finite number;
  otherwise it returns the quantity times the coerced price when the price is finite,
  and 0 when it is not.
\<close>

theorem accessors_precedence:
  "(let v = (if units r = Undefined \<or> units r = Null then quantity r else units r)
    in (\<forall>x. Number h v = Fin x \<longrightarrow> getQuantity h r = x)
     \<and> (\<not> isFinite (Number h v) \<longrightarrow> getQuantity h r = 0))
   \<and> (\<forall>x. revenue r = Num (Fin x) \<longrightarrow> getRevenue h r = x)
   \<and> (\<not> Number_isFinite (revenue r) \<longrightarrow>
         (\<forall>p. Number h (price r) = Fin p \<longrightarrow> getRevenue h r = getQuantity h r * p)
       \<and> (\<not> isFinite (Number h (price r)) \<longrightarrow> getRevenue h r = 0))"
proof (intro conjI)
  show "let v = (if units r = Undefined \<or> units r = Null then quantity r else units r)
        in (\<forall>x. Number h v = Fin x \<longrightarrow> getQuantity h r = x)
         \<and> (\<not> isFinite (Number h v) \<longrightarrow> getQuantity h r = 0)"
    by (auto simp: getQuantity_def nullish_def Let_def split: jsnum.splits)
  show "\<forall>x. revenue r = Num (Fin x) \<longrightarrow> getRevenue h r = x"
    by (simp add: getRevenue_def)
  show "\<not> Number_isFinite (revenue r) \<longrightarrow>
         (\<forall>p. Number h (price r) = Fin p \<longrightarrow> getRevenue h r = getQuantity h r * p)
       \<and> (\<not> isFinite (Number h (price r)) \<longrightarrow> getRevenue h r = 0)"
    by (auto simp: getRevenue_def split: jsnum.splits jsval.splits)
qed

theorem accessors_precedence_witness:
  "getQuantity plainHost (saleRow ''01-01-2025'' ''A'' ''X'' 3 20) = 3
   \<and> getRevenue plainHost (saleRow ''01-01-2025'' ''A'' ''X'' 3 20) = 60
   \<and> getRevenue plainHost ((saleRow ''01-01-2025'' ''A'' ''X'' 3 20)\<lparr>revenue := Num (Fin 100)\<rparr>) = 100
   \<and> getRevenue plainHost ((saleRow ''01-01-2025'' ''A'' ''X'' 3 20)\<lparr>price := Undefined\<rparr>) = 0
   \<and> getQuantity plainHost ((saleRow ''01-01-2025'' ''A'' ''X'' 3 20)\<lparr>units := Str ''abc''\<rparr>) = 0"
  using accessors_precedence [of "saleRow ''01-01-2025'' ''A'' ''X'' 3 20" plainHost]
    accessors_precedence [of "(saleRow ''01-01-2025'' ''A'' ''X'' 3 20)\<lparr>revenue := Num (Fin 100)\<rparr>" plainHost]
    accessors_precedence [of "(saleRow ''01-01-2025'' ''A'' ''X'' 3 20)\<lparr>price := Undefined\<rparr>" plainHost]
    accessors_precedence [of "(saleRow ''01-01-2025'' ''A'' ''X'' 3 20)\<lparr>units := Str ''abc''\<rparr>" plainHost]
  by (simp add: saleRow_def plainHost_def trim_def isWhiteSpace_def isDigit_def)

section \<open>Properties of the growth computation\<close>




section \<open>Properties of the anomaly detection\<close>












section \<open>Properties of the host's dates\<close>

lemma daysInMonth_bounds: "28 \<le> daysInMonth y m \<and> daysInMonth y m \<le> 31"
  by (simp add: daysInMonth_def)

lemma iterate_add: "iterate (a + b) f x = iterate b f (iterate a f x)"
  by (induction a arbitrary: x) simp_all

lemma iterate_nextDay_within:
  "1 \<le> a \<Longrightarrow> a + int k \<le> daysInMonth y m \<Longrightarrow>
   iterate k nextDay \<lparr>getFullYear = y, getMonth = m, getDate = a\<rparr>
     = \<lparr>getFullYear = y, getMonth = m, getDate = a + int k\<rparr>"
proof (induction k arbitrary: a)
  case 0
  then show ?case by simp
next
  case (Suc k)
  have "nextDay \<lparr>getFullYear = y, getMonth = m, getDate = a\<rparr> = \<lparr>getFullYear = y, getMonth = m, getDate = a + 1\<rparr>"
    using Suc.prems by (simp add: nextDay_def)
  moreover have "iterate k nextDay \<lparr>getFullYear = y, getMonth = m, getDate = a + 1\<rparr>
     = \<lparr>getFullYear = y, getMonth = m, getDate = a + 1 + int k\<rparr>"
    using Suc.prems by (intro Suc.IH) simp_all
  ultimately show ?case by (simp add: add.commute add.left_commute)
qed

lemma newDate_roundtrip:
  assumes "1 \<le> m" "m \<le> 12" "1 \<le> d" "d \<le> 31"
  shows "(getDate (newDate y (m - 1) d) = d \<and> getMonth (newDate y (m - 1) d) = m - 1)
         \<longleftrightarrow> d \<le> daysInMonth (fullYearOf y) (m - 1)"
proof -
  let ?Y = "fullYearOf y"
  let ?dim = "daysInMonth ?Y (m - 1)"
  have mm: "(m - 1) div 12 = 0" "(m - 1) mod 12 = m - 1" using assms by simp_all
  have nd: "newDate y (m - 1) d = iterate (nat (d - 1)) nextDay \<lparr>getFullYear = ?Y, getMonth = m - 1, getDate = 1\<rparr>"
    using assms by (simp add: newDate_def shiftDays_def mm)
  show ?thesis
  proof (cases "d \<le> ?dim")
    case True
    have "newDate y (m - 1) d = \<lparr>getFullYear = ?Y, getMonth = m - 1, getDate = 1 + int (nat (d - 1))\<rparr>"
      unfolding nd using True assms by (intro iterate_nextDay_within) simp_all
    then show ?thesis using True assms by simp
  next
    case False
    define k where "k = nat (?dim - 1)"
    define r where "r = nat (d - ?dim - 1)"
    have dimb: "28 \<le> ?dim" "?dim \<le> 31" using daysInMonth_bounds by simp_all
    have split: "nat (d - 1) = k + (1 + r)" using False dimb by (simp add: k_def r_def)
    have s1: "iterate k nextDay \<lparr>getFullYear = ?Y, getMonth = m - 1, getDate = 1\<rparr>
        = \<lparr>getFullYear = ?Y, getMonth = m - 1, getDate = ?dim\<rparr>"
      using iterate_nextDay_within [of 1 k ?Y "m - 1"] dimb by (simp add: k_def)
    have "\<exists>Y' M'. nextDay \<lparr>getFullYear = ?Y, getMonth = m - 1, getDate = ?dim\<rparr>
        = \<lparr>getFullYear = Y', getMonth = M', getDate = 1\<rparr>"
      by (simp add: nextDay_def)
    then obtain Y' M' where s2: "nextDay \<lparr>getFullYear = ?Y, getMonth = m - 1, getDate = ?dim\<rparr>
        = \<lparr>getFullYear = Y', getMonth = M', getDate = 1\<rparr>"
      by blast
    have rb: "1 + int r \<le> daysInMonth Y' M'"
      using daysInMonth_bounds [of Y' M'] assms False dimb by (simp add: r_def)
    have s3: "iterate r nextDay \<lparr>getFullYear = Y', getMonth = M', getDate = 1\<rparr>
        = \<lparr>getFullYear = Y', getMonth = M', getDate = 1 + int r\<rparr>"
      using rb by (intro iterate_nextDay_within) simp_all
    have "iterate (k + (1 + r)) nextDay \<lparr>getFullYear = ?Y, getMonth = m - 1, getDate = 1\<rparr>
        = iterate (1 + r) nextDay \<lparr>getFullYear = ?Y, getMonth = m - 1, getDate = ?dim\<rparr>"
      by (simp only: iterate_add s1)
    also have "\<dots> = iterate r nextDay \<lparr>getFullYear = Y', getMonth = M', getDate = 1\<rparr>"
      by (simp add: s2)
    finally have "newDate y (m - 1) d = \<lparr>getFullYear = Y', getMonth = M', getDate = 1 + int r\<rparr>"
      unfolding nd split by (simp only: s3)
    moreover have "1 + int r \<noteq> d" using False dimb by (simp add: r_def)
    ultimately show ?thesis using False by simp
  qed
qed

text \<open>
  The day after and the day before are inverse on the dates of the calendar, and the day
  number counts them: shifting by \<open>k\<close> days adds \<open>k\<close> to the day number.
\<close>

lemma december: "daysInMonth y 11 = 31"
  by (simp add: daysInMonth_def)

lemma nextDay_valid: "validDate d \<Longrightarrow> validDate (nextDay d)"
  using daysInMonth_bounds [of "getFullYear d" "getMonth d + 1"] daysInMonth_bounds [of "getFullYear d + 1" 0]
  by (auto simp: validDate_def nextDay_def)

lemma prevDay_valid: "validDate d \<Longrightarrow> validDate (prevDay d)"
  using daysInMonth_bounds [of "getFullYear d" "getMonth d - 1"]
  by (auto simp: validDate_def prevDay_def december)

lemma prevDay_nextDay: "validDate d \<Longrightarrow> prevDay (nextDay d) = d"
  using daysInMonth_bounds [of "getFullYear d" "getMonth d"]
  by (cases d) (auto simp: validDate_def nextDay_def prevDay_def december)

lemma nextDay_prevDay: "validDate d \<Longrightarrow> nextDay (prevDay d) = d"
  using daysInMonth_bounds [of "getFullYear d" "getMonth d - 1"]
  by (cases d) (auto simp: validDate_def nextDay_def prevDay_def december)

lemma div_step:
  fixes a n :: int
  assumes "0 < n"
  shows "(a + 1) div n = a div n + (if (a + 1) mod n = 0 then 1 else 0)"
proof (cases "a mod n + 1 < n")
  case True
  have eq: "a + 1 = n * (a div n) + (a mod n + 1)" by simp
  have m0: "0 \<le> a mod n" using assms by simp
  have r0: "0 \<le> a mod n + 1" using m0 by simp
  have "(a + 1) div n = a div n" by (rule int_div_pos_eq [OF eq r0 True])
  moreover have "(a + 1) mod n = a mod n + 1" by (rule int_mod_pos_eq [OF eq r0 True])
  moreover have "a mod n + 1 \<noteq> 0" using m0 by simp
  ultimately show ?thesis by simp
next
  case False
  moreover have "a mod n < n" using assms by simp
  ultimately have e: "a mod n + 1 = n" by simp
  have "a + 1 = n * (a div n) + (a mod n + 1)" by simp
  also have "\<dots> = n * (a div n) + n" by (simp only: e)
  also have "\<dots> = n * (a div n + 1) + 0" by (simp add: algebra_simps)
  finally have eq: "a + 1 = n * (a div n + 1) + 0" .
  have "(a + 1) div n = a div n + 1" by (rule int_div_pos_eq [OF eq _ assms]) simp
  moreover have "(a + 1) mod n = 0" by (rule int_mod_pos_eq [OF eq _ assms]) simp
  ultimately show ?thesis by simp
qed

lemma mod_shift: "((y::int) - 1968) mod 4 = y mod 4" "((y::int) - 1900) mod 100 = y mod 100" "((y::int) - 1600) mod 400 = y mod 400"
  using mod_mult_self1 [of y "- 492" 4] mod_mult_self1 [of y "- 19" 100] mod_mult_self1 [of y "- 4" 400]
  by simp_all

lemma dayFromYear_next: "dayFromYear (y + 1) = dayFromYear y + (if isLeapYear y then 366 else 365)"
proof -
  have a: "(y + 1 - 1969) div 4 = (y - 1969) div 4 + (if y mod 4 = 0 then 1 else 0)"
    using div_step [of 4 "y - 1969"] mod_shift(1) [of y] by (simp add: algebra_simps)
  have b: "(y + 1 - 1901) div 100 = (y - 1901) div 100 + (if y mod 100 = 0 then 1 else 0)"
    using div_step [of 100 "y - 1901"] mod_shift(2) [of y] by (simp add: algebra_simps)
  have c: "(y + 1 - 1601) div 400 = (y - 1601) div 400 + (if y mod 400 = 0 then 1 else 0)"
    using div_step [of 400 "y - 1601"] mod_shift(3) [of y] by (simp add: algebra_simps)
  have "(100::int) dvd 400" "(4::int) dvd 100" by simp_all
  then have d: "y mod 400 = 0 \<Longrightarrow> y mod 100 = 0" "y mod 100 = 0 \<Longrightarrow> y mod 4 = 0"
    by (auto simp: mod_eq_0_iff_dvd elim: dvd_trans)
  show ?thesis
    unfolding dayFromYear_def a b c isLeapYear_def using d by auto
qed

lemma daysBefore_next: "0 \<le> m \<Longrightarrow> daysBefore y (m + 1) = daysBefore y m + daysInMonth y m"
  by (simp add: daysBefore_def nat_add_distrib)

lemma daysBefore_0: "daysBefore y 0 = 0"
  by (simp add: daysBefore_def)

lemma daysBefore_12: "daysBefore y 12 = (if isLeapYear y then 366 else 365)"
proof -
  have "daysBefore y 12 = daysBefore y 0 + daysInMonth y 0 + daysInMonth y 1 + daysInMonth y 2
      + daysInMonth y 3 + daysInMonth y 4 + daysInMonth y 5 + daysInMonth y 6 + daysInMonth y 7
      + daysInMonth y 8 + daysInMonth y 9 + daysInMonth y 10 + daysInMonth y 11"
    using daysBefore_next [of 0 y] daysBefore_next [of 1 y] daysBefore_next [of 2 y]
      daysBefore_next [of 3 y] daysBefore_next [of 4 y] daysBefore_next [of 5 y]
      daysBefore_next [of 6 y] daysBefore_next [of 7 y] daysBefore_next [of 8 y]
      daysBefore_next [of 9 y] daysBefore_next [of 10 y] daysBefore_next [of 11 y]
    by simp
  then show ?thesis by (simp add: daysBefore_0 daysInMonth_def)
qed

lemma dayNumber_alt: "dayNumber d = dayFromYear (getFullYear d) + daysBefore (getFullYear d) (getMonth d) + (getDate d - 1)"
  by (simp add: dayNumber_def daysBefore_def)

lemma dayNumber_nextDay: "validDate d \<Longrightarrow> dayNumber (nextDay d) = dayNumber d + 1"
proof -
  assume v: "validDate d"
  show ?thesis
  proof (cases "getDate d < daysInMonth (getFullYear d) (getMonth d)")
    case True
    then show ?thesis by (simp add: dayNumber_alt nextDay_def)
  next
    case False
    then have e: "getDate d = daysInMonth (getFullYear d) (getMonth d)" using v by (simp add: validDate_def)
    show ?thesis
    proof (cases "getMonth d < 11")
      case True
      then show ?thesis
        using v False e daysBefore_next [of "getMonth d" "getFullYear d"]
        by (simp add: dayNumber_alt nextDay_def validDate_def)
    next
      case False
      then have m: "getMonth d = 11" using v by (simp add: validDate_def)
      have "daysBefore (getFullYear d) 12 = daysBefore (getFullYear d) 11 + 31"
        using daysBefore_next [of 11 "getFullYear d"] by (simp add: december)
      then show ?thesis
        using e m dayFromYear_next [of "getFullYear d"] daysBefore_12 [of "getFullYear d"]
        by (simp add: dayNumber_alt nextDay_def december daysBefore_0)
    qed
  qed
qed

lemma dayNumber_prevDay: "validDate d \<Longrightarrow> dayNumber (prevDay d) = dayNumber d - 1"
  using dayNumber_nextDay [OF prevDay_valid, of d] nextDay_prevDay [of d] by simp

lemma iterate_nextDay_valid:
  "validDate d \<Longrightarrow> validDate (iterate n nextDay d) \<and> dayNumber (iterate n nextDay d) = dayNumber d + int n"
  by (induction n arbitrary: d) (simp_all add: nextDay_valid dayNumber_nextDay)

lemma iterate_prevDay_valid:
  "validDate d \<Longrightarrow> validDate (iterate n prevDay d) \<and> dayNumber (iterate n prevDay d) = dayNumber d - int n"
  by (induction n arbitrary: d) (simp_all add: prevDay_valid dayNumber_prevDay)

lemma shiftDays_valid: "validDate d \<Longrightarrow> validDate (shiftDays d k) \<and> dayNumber (shiftDays d k) = dayNumber d + k"
  using iterate_nextDay_valid [of d "nat k"] iterate_prevDay_valid [of d "nat (- k)"]
  by (simp add: shiftDays_def)

lemma shiftDays_nextDay: "validDate d \<Longrightarrow> shiftDays (nextDay d) k = shiftDays d (k + 1)"
proof -
  assume v: "validDate d"
  show ?thesis
  proof (cases "0 \<le> k")
    case True
    then have "nat (k + 1) = Suc (nat k)" by simp
    then show ?thesis using True by (simp add: shiftDays_def)
  next
    case False
    then obtain j where j: "nat (- k) = Suc j" by (cases "nat (- k)") auto
    then have "nat (- (k + 1)) = j" by simp
    then show ?thesis
      using False j v by (cases "k + 1 = 0") (auto simp: shiftDays_def prevDay_nextDay)
  qed
qed

lemma shiftDays_add:
  "validDate d \<Longrightarrow> shiftDays (iterate n nextDay d) b = shiftDays d (int n + b)"
proof (induction n arbitrary: d)
  case 0
  then show ?case by simp
next
  case (Suc n)
  have "shiftDays (iterate n nextDay (nextDay d)) b = shiftDays (nextDay d) (int n + b)"
    using Suc.prems by (intro Suc.IH nextDay_valid)
  also have "\<dots> = shiftDays d (int n + b + 1)"
    using Suc.prems by (rule shiftDays_nextDay)
  finally show ?case by (simp add: add.commute add.left_commute)
qed

lemma setDate_shiftDays:
  assumes "validDate d"
  shows "setDate d n = shiftDays d (n - getDate d)"
proof -
  let ?d1 = "d\<lparr>getDate := 1\<rparr>"
  have v1: "validDate ?d1"
    using assms daysInMonth_bounds [of "getFullYear d" "getMonth d"] by (simp add: validDate_def)
  have "iterate (nat (getDate d - 1)) nextDay \<lparr>getFullYear = getFullYear d, getMonth = getMonth d, getDate = 1\<rparr>
        = \<lparr>getFullYear = getFullYear d, getMonth = getMonth d, getDate = 1 + int (nat (getDate d - 1))\<rparr>"
    using assms by (intro iterate_nextDay_within) (simp_all add: validDate_def)
  then have d: "iterate (nat (getDate d - 1)) nextDay ?d1 = d"
    using assms by (cases d) (simp add: validDate_def)
  have "shiftDays d (n - getDate d) = shiftDays (iterate (nat (getDate d - 1)) nextDay ?d1) (n - getDate d)"
    by (simp only: d)
  also have "\<dots> = shiftDays ?d1 (int (nat (getDate d - 1)) + (n - getDate d))"
    using v1 by (rule shiftDays_add)
  also have "\<dots> = shiftDays ?d1 (n - 1)"
    using assms by (simp add: validDate_def)
  finally show ?thesis by (simp add: setDate_def)
qed

lemma getISOWeekKey_shift:
  "validDate d \<Longrightarrow> getISOWeekKey d = isoDate (shiftDays d (1 - getDay d))"
  by (simp add: getISOWeekKey_def Let_def setDate_shiftDays isoDate_def algebra_simps)

lemma getDay_range: "0 \<le> getDay d \<and> getDay d \<le> 6"
  by (simp add: getDay_def)

lemma getDay_week_start: "validDate d \<Longrightarrow> getDay (shiftDays d (1 - getDay d)) = 1"
proof -
  assume "validDate d"
  then have "dayNumber (shiftDays d (1 - getDay d)) = dayNumber d + (1 - getDay d)"
    using shiftDays_valid by blast
  then show ?thesis
    unfolding getDay_def by presburger
qed

lemma newDate_valid:
  assumes "1 \<le> m" "m \<le> 12" "1 \<le> d" "d \<le> daysInMonth (fullYearOf y) (m - 1)"
  shows "newDate y (m - 1) d = \<lparr>getFullYear = fullYearOf y, getMonth = m - 1, getDate = d\<rparr>"
proof -
  have mm: "(m - 1) div 12 = 0" "(m - 1) mod 12 = m - 1" using assms by simp_all
  have "iterate (nat (d - 1)) nextDay \<lparr>getFullYear = fullYearOf y, getMonth = m - 1, getDate = 1\<rparr>
      = \<lparr>getFullYear = fullYearOf y, getMonth = m - 1, getDate = 1 + int (nat (d - 1))\<rparr>"
    using assms by (intro iterate_nextDay_within) simp_all
  then show ?thesis using assms by (simp add: newDate_def shiftDays_def mm)
qed

lemma checkedDate_Some:
  assumes "checkedDate y m d = Some r"
  shows "validDate (date' r) \<and> dayOfWeek r = getDay (date' r) \<and> weekKey r = getISOWeekKey (date' r)
         \<and> date' r = \<lparr>getFullYear = fullYearOf y, getMonth = m - 1, getDate = d\<rparr>"
proof -
  have c: "1 \<le> m" "m \<le> 12" "1 \<le> d" "d \<le> 31"
    and rt: "getDate (newDate y (m - 1) d) = d \<and> getMonth (newDate y (m - 1) d) = m - 1"
    and r: "r = \<lparr>year = y, month = m, day = d, date' = newDate y (m - 1) d,
                 dayOfWeek = getDay (newDate y (m - 1) d), weekKey = getISOWeekKey (newDate y (m - 1) d)\<rparr>"
    using assms by (auto simp: checkedDate_def Let_def split: if_splits)
  have dim: "d \<le> daysInMonth (fullYearOf y) (m - 1)"
    using newDate_roundtrip [OF c] rt by simp
  have nd: "newDate y (m - 1) d = \<lparr>getFullYear = fullYearOf y, getMonth = m - 1, getDate = d\<rparr>"
    using c dim by (intro newDate_valid) simp_all
  show ?thesis using c dim by (simp add: r nd validDate_def)
qed

section \<open>Properties of the date parser\<close>

lemma digit_char_value: "k < 10 \<Longrightarrow> digitValue (digit_char k) = int k \<and> isDigit (digit_char k)"
proof -
  assume "k < 10"
  then have "k \<in> {0,1,2,3,4,5,6,7,8,9}" by auto
  then show ?thesis by (auto simp: digit_char_def digitValue_def isDigit_def)
qed


lemma isDigit_not_ws: "isDigit c \<Longrightarrow> \<not> isWhiteSpace c"
  by (auto simp: isDigit_def isWhiteSpace_def)

lemma parseInt_twoDigits:
  assumes "0 \<le> n" "n \<le> 99"
  shows "parseInt (twoDigits n) = n" "list_all isDigit (twoDigits n)" "length (twoDigits n) = 2"
proof -
  have a: "nat (n div 10) < 10" "nat (n mod 10) < 10" using assms by auto
  have b: "0 \<le> n div 10" "0 \<le> n mod 10" using assms by auto
  have v: "digitValue (digit_char (nat (n div 10))) = n div 10"
          "digitValue (digit_char (nat (n mod 10))) = n mod 10"
    using digit_char_value [OF a(1)] digit_char_value [OF a(2)] b by simp_all
  show "parseInt (twoDigits n) = n"
    by (simp add: parseInt_def twoDigits_def v)
  show "list_all isDigit (twoDigits n)"
    using digit_char_value [OF a(1)] digit_char_value [OF a(2)] by (simp add: twoDigits_def)
  show "length (twoDigits n) = 2" by (simp add: twoDigits_def)
qed

lemma parseInt_append2: "length t = 2 \<Longrightarrow> parseInt (s @ t) = 100 * parseInt s + parseInt t"
  by (auto simp: parseInt_def length_Suc_conv numeral_2_eq_2)

lemma parseInt_fourDigits:
  assumes "0 \<le> n" "n \<le> 9999"
  shows "parseInt (fourDigits n) = n" "list_all isDigit (fourDigits n)" "length (fourDigits n) = 4"
proof -
  have hi: "0 \<le> n div 100" "n div 100 \<le> 99" using assms by simp_all
  have lo: "0 \<le> n mod 100" "n mod 100 \<le> 99" by simp_all
  show "parseInt (fourDigits n) = n"
    by (simp add: fourDigits_def parseInt_append2 parseInt_twoDigits hi lo)
  show "list_all isDigit (fourDigits n)"
    by (simp add: fourDigits_def parseInt_twoDigits hi lo)
  show "length (fourDigits n) = 4"
    by (simp add: fourDigits_def parseInt_twoDigits hi lo)
qed



lemma digitGroups_iff:
  "digitGroups a b c s = Some (g1, g2, g3) \<longleftrightarrow>
     s = g1 @ ''-'' @ g2 @ ''-'' @ g3 \<and> length g1 = a \<and> length g2 = b \<and> length g3 = c
     \<and> list_all isDigit g1 \<and> list_all isDigit g2 \<and> list_all isDigit g3"
proof
  assume "digitGroups a b c s = Some (g1, g2, g3)"
  then have len: "length s = a + b + c + 2"
    and g: "g1 = take a s" "g2 = take b (drop (a + 1) s)" "g3 = drop (a + b + 2) s"
    and dash: "s ! a = CHR ''-''" "s ! (a + b + 1) = CHR ''-''"
    and dig: "list_all isDigit g1" "list_all isDigit g2" "list_all isDigit g3"
    by (auto simp: digitGroups_def Let_def split: if_splits)
  have "s = take a s @ s ! a # drop (Suc a) s"
    using len by (intro id_take_nth_drop) simp
  moreover have "drop (Suc a) s = take b (drop (Suc a) s) @ drop (Suc a) s ! b # drop (Suc b) (drop (Suc a) s)"
    using len by (intro id_take_nth_drop) simp
  moreover have "drop (Suc a) s ! b = s ! (a + b + 1)" using len by simp
  moreover have "drop (Suc b) (drop (Suc a) s) = drop (a + b + 2) s" by (simp add: add.commute)
  ultimately have "s = g1 @ ''-'' @ g2 @ ''-'' @ g3"
    using g dash by simp
  then show "s = g1 @ ''-'' @ g2 @ ''-'' @ g3 \<and> length g1 = a \<and> length g2 = b \<and> length g3 = c
     \<and> list_all isDigit g1 \<and> list_all isDigit g2 \<and> list_all isDigit g3"
    using len g dig by simp
next
  assume "s = g1 @ ''-'' @ g2 @ ''-'' @ g3 \<and> length g1 = a \<and> length g2 = b \<and> length g3 = c
     \<and> list_all isDigit g1 \<and> list_all isDigit g2 \<and> list_all isDigit g3"
  then show "digitGroups a b c s = Some (g1, g2, g3)"
    by (simp add: digitGroups_def Let_def nth_append)
qed


lemma match_ddmmyyyy_render:
  assumes "0 \<le> d" "d \<le> 99" "0 \<le> m" "m \<le> 99" "0 \<le> y" "y \<le> 9999"
  shows "match_ddmmyyyy (ddmmyyyy d m y) = Some (twoDigits d, twoDigits m, fourDigits y)"
  unfolding match_ddmmyyyy_def digitGroups_iff ddmmyyyy_def
  using parseInt_twoDigits [OF assms(1,2)] parseInt_twoDigits [OF assms(3,4)] parseInt_fourDigits [OF assms(5,6)]
  by simp

lemma match_yyyymmdd_render:
  assumes "0 \<le> d" "d \<le> 99" "0 \<le> m" "m \<le> 99" "0 \<le> y" "y \<le> 9999"
  shows "match_yyyymmdd (yyyymmdd y m d) = Some (fourDigits y, twoDigits m, twoDigits d)"
    and "match_ddmmyyyy (yyyymmdd y m d) = None"
proof -
  note F = parseInt_twoDigits [OF assms(1,2)] parseInt_twoDigits [OF assms(3,4)] parseInt_fourDigits [OF assms(5,6)]
  show "match_yyyymmdd (yyyymmdd y m d) = Some (fourDigits y, twoDigits m, twoDigits d)"
    unfolding match_yyyymmdd_def digitGroups_iff yyyymmdd_def using F by simp
  have "isDigit (yyyymmdd y m d ! 2)"
    using F(8) by (simp add: yyyymmdd_def fourDigits_def twoDigits_def nth_append)
  then have "yyyymmdd y m d ! 2 \<noteq> CHR ''-''" by (auto simp: isDigit_def)
  then show "match_ddmmyyyy (yyyymmdd y m d) = None"
    by (simp add: match_ddmmyyyy_def digitGroups_def Let_def)
qed


lemma checkedDate_Some_iff:
  "checkedDate y m d \<noteq> None \<longleftrightarrow>
     1 \<le> m \<and> m \<le> 12 \<and> 1 \<le> d \<and> d \<le> 31 \<and> d \<le> daysInMonth (fullYearOf y) (m - 1)"
  using newDate_roundtrip [of m d y]
  by (auto simp: checkedDate_def Let_def)

lemma checkedDate_fields:
  "checkedDate y m d = Some r \<Longrightarrow> year r = y \<and> month r = m \<and> day r = d"
  by (auto simp: checkedDate_def Let_def split: if_splits)

lemma length_ddmmyyyy: "length (ddmmyyyy d m y) = 10" "length (yyyymmdd y m d) = 10"
  by (simp_all add: ddmmyyyy_def yyyymmdd_def twoDigits_def fourDigits_def)

lemma parseDate_ddmmyyyy:
  assumes "trim str = ddmmyyyy d m y" "0 \<le> d" "d \<le> 99" "0 \<le> m" "m \<le> 99" "0 \<le> y" "y \<le> 9999"
  shows "parseDate (Str str) = checkedDate y m d"
proof -
  have "str \<noteq> []" using assms(1) length_ddmmyyyy(1) [of d m y] by (auto simp: trim_def)
  then show ?thesis
    using match_ddmmyyyy_render [OF assms(2-7)]
      parseInt_twoDigits(1) [OF assms(2,3)] parseInt_twoDigits(1) [OF assms(4,5)]
      parseInt_fourDigits(1) [OF assms(6,7)]
    by (simp add: parseDate_def assms(1))
qed

lemma parseDate_yyyymmdd:
  assumes "trim str = yyyymmdd y m d" "0 \<le> d" "d \<le> 99" "0 \<le> m" "m \<le> 99" "0 \<le> y" "y \<le> 9999"
  shows "parseDate (Str str) = checkedDate y m d"
proof -
  have "str \<noteq> []" using assms(1) length_ddmmyyyy(2) [of y m d] by (auto simp: trim_def)
  then show ?thesis
    using match_yyyymmdd_render [OF assms(2-7)]
      parseInt_twoDigits(1) [OF assms(2,3)] parseInt_twoDigits(1) [OF assms(4,5)]
      parseInt_fourDigits(1) [OF assms(6,7)]
    by (simp add: parseDate_def assms(1))
qed



text \<open>
  The value of \<open>parseDate\<close> on a date of the calendar in either format, from the
  day of the week of the date and the rendering of the start of its week.
\<close>

lemma parseDate_value:
  assumes "trim str = ddmmyyyy d m y \<or> trim str = yyyymmdd y m d"
    and "0 \<le> y" "y \<le> 9999" "1 \<le> m" "m \<le> 12" "1 \<le> d"
    and "d \<le> daysInMonth (fullYearOf y) (m - 1)"
    and "getDay \<lparr>getFullYear = fullYearOf y, getMonth = m - 1, getDate = d\<rparr> = w"
    and "isoDate (shiftDays \<lparr>getFullYear = fullYearOf y, getMonth = m - 1, getDate = d\<rparr> (1 - w)) = k"
  shows "parseDate (Str str) =
    Some \<lparr>year = y, month = m, day = d,
          date' = \<lparr>getFullYear = fullYearOf y, getMonth = m - 1, getDate = d\<rparr>,
          dayOfWeek = w, weekKey = k\<rparr>"
proof -
  let ?D = "\<lparr>getFullYear = fullYearOf y, getMonth = m - 1, getDate = d\<rparr>"
  have d31: "d \<le> 31" using assms(7) daysInMonth_bounds [of "fullYearOf y" "m - 1"] by simp
  have r: "0 \<le> d" "d \<le> 99" "0 \<le> m" "m \<le> 99" using assms(4-6) d31 by simp_all
  have p: "parseDate (Str str) = checkedDate y m d"
    using assms(1) parseDate_ddmmyyyy [OF _ r assms(2,3)] parseDate_yyyymmdd [OF _ r assms(2,3)] by blast
  have "checkedDate y m d \<noteq> None"
    unfolding checkedDate_Some_iff using assms(4-7) d31 by simp
  then obtain res where c: "checkedDate y m d = Some res" by blast
  note C = checkedDate_Some [OF c] and F = checkedDate_fields [OF c]
  have dt: "date' res = ?D" using C by blast
  have v: "validDate ?D" using C dt by simp
  have "dayOfWeek res = w" using C dt assms(8) by simp
  moreover have "weekKey res = k"
    using C dt getISOWeekKey_shift [OF v] assms(8,9) by simp
  ultimately have "res = \<lparr>year = y, month = m, day = d, date' = ?D, dayOfWeek = w, weekKey = k\<rparr>"
    using F dt by (cases res) simp
  then show ?thesis using p c by simp
qed




text \<open>
  The week key of every accepted date is the ISO rendering of the date shifted by
  \<open>1 - dayOfWeek\<close> days, and the day it names is a Monday. For Monday to Saturday
  the shift is 0 to 5 days back; for a Sunday, whose day of the week is 0, it is one day
  forward.
\<close>

lemma parseDate_Some_checked: "parseDate v = Some r \<Longrightarrow> \<exists>y m d. checkedDate y m d = Some r"
  by (auto simp: parseDate_def Let_def split: jsval.splits if_splits option.splits prod.splits)

lemma weekKey_shift:
  assumes "parseDate v = Some r"
  shows "validDate (date' r)"
    and "dayOfWeek r = getDay (date' r)"
    and "weekKey r = isoDate (shiftDays (date' r) (1 - dayOfWeek r))"
    and "getDay (shiftDays (date' r) (1 - dayOfWeek r)) = 1"
    and "dayNumber (shiftDays (date' r) (1 - dayOfWeek r)) = dayNumber (date' r) + 1 - dayOfWeek r"
proof -
  obtain y m d where c: "checkedDate y m d = Some r"
    using parseDate_Some_checked [OF assms] by blast
  note C = checkedDate_Some [OF c]
  show v: "validDate (date' r)" using C by blast
  show w: "dayOfWeek r = getDay (date' r)" using C by blast
  have k: "weekKey r = getISOWeekKey (date' r)" using C by blast
  show "weekKey r = isoDate (shiftDays (date' r) (1 - dayOfWeek r))"
    unfolding k w by (rule getISOWeekKey_shift [OF v])
  show "getDay (shiftDays (date' r) (1 - dayOfWeek r)) = 1"
    unfolding w by (rule getDay_week_start [OF v])
  show "dayNumber (shiftDays (date' r) (1 - dayOfWeek r)) = dayNumber (date' r) + 1 - dayOfWeek r"
    using shiftDays_valid [OF v, of "1 - dayOfWeek r"] by simp
qed

text \<open>
  A year from 0000 to 0099 is parsed as it is written, but its day of the week and its
  week key are those of the year 1900 later, the year of the host's \<open>Date\<close>.
\<close>

lemma weekKey_two_digit_year:
  "parseDate (Str ''03-01-0050'') =
     Some \<lparr>year = 50, month = 1, day = 3, date' = \<lparr>getFullYear = 1950, getMonth = 0, getDate = 3\<rparr>,
           dayOfWeek = 2, weekKey = ''1950-01-02''\<rparr>"
proof -
  have t: "trim ''03-01-0050'' = ddmmyyyy 3 1 50" by code_simp
  have g: "getDay \<lparr>getFullYear = 1950, getMonth = 0, getDate = 3\<rparr> = 2" by code_simp
  have s: "shiftDays \<lparr>getFullYear = 1950, getMonth = 0, getDate = 3\<rparr> (1 - 2)
       = \<lparr>getFullYear = 1950, getMonth = 0, getDate = 2\<rparr>" by code_simp
  have k: "isoDate \<lparr>getFullYear = 1950, getMonth = 0, getDate = 2\<rparr> = ''1950-01-02''" by code_simp
  show ?thesis
    using parseDate_value [of "''03-01-0050''" 3 1 50 2 "''1950-01-02''"] t g s k
    by (simp add: fullYearOf_def daysInMonth_def)
qed

text \<open>
  Claim C2 at a Sunday. 2 March 2025 is a Sunday (day of week 0). The Monday of its week
  is 24 February 2025, 6 days before it, which is the week key of Saturday 1 March; the
  week key the code gives the Sunday is 3 March 2025, the day after it.
\<close>

theorem getISOWeekKey_sunday:
  "map_option weekKey (parseDate (Str ''02-03-2025'')) = Some ''2025-03-03''
   \<and> map_option dayOfWeek (parseDate (Str ''02-03-2025'')) = Some 0
   \<and> map_option weekKey (parseDate (Str ''01-03-2025'')) = Some ''2025-02-24''"
proof -
  have t: "trim ''02-03-2025'' = ddmmyyyy 2 3 2025" "trim ''01-03-2025'' = ddmmyyyy 1 3 2025"
    by code_simp+
  have g: "getDay \<lparr>getFullYear = 2025, getMonth = 2, getDate = 2\<rparr> = 0"
    "getDay \<lparr>getFullYear = 2025, getMonth = 2, getDate = 1\<rparr> = 6"
    by code_simp+
  have s: "shiftDays \<lparr>getFullYear = 2025, getMonth = 2, getDate = 2\<rparr> (1 - 0)
       = \<lparr>getFullYear = 2025, getMonth = 2, getDate = 3\<rparr>"
    "shiftDays \<lparr>getFullYear = 2025, getMonth = 2, getDate = 1\<rparr> (1 - 6)
       = \<lparr>getFullYear = 2025, getMonth = 1, getDate = 24\<rparr>"
    by code_simp+
  have k: "isoDate \<lparr>getFullYear = 2025, getMonth = 2, getDate = 3\<rparr> = ''2025-03-03''"
    "isoDate \<lparr>getFullYear = 2025, getMonth = 1, getDate = 24\<rparr> = ''2025-02-24''"
    by code_simp+
  have "parseDate (Str ''02-03-2025'') =
      Some \<lparr>year = 2025, month = 3, day = 2, date' = \<lparr>getFullYear = 2025, getMonth = 2, getDate = 2\<rparr>,
            dayOfWeek = 0, weekKey = ''2025-03-03''\<rparr>"
    using parseDate_value [of "''02-03-2025''" 2 3 2025 0 "''2025-03-03''"] t g s k
    by (simp add: fullYearOf_def daysInMonth_def)
  moreover have "parseDate (Str ''01-03-2025'') =
      Some \<lparr>year = 2025, month = 3, day = 1, date' = \<lparr>getFullYear = 2025, getMonth = 2, getDate = 1\<rparr>,
            dayOfWeek = 6, weekKey = ''2025-02-24''\<rparr>"
    using parseDate_value [of "''01-03-2025''" 1 3 2025 6 "''2025-02-24''"] t g s k
    by (simp add: fullYearOf_def daysInMonth_def)
  ultimately show ?thesis by simp
qed

section \<open>Properties of the trend step\<close>

lemma mapSet_nonempty: "mapSet k v m \<noteq> []"
  by (cases m) (auto split: if_splits)

lemma foldl_keys_empty_iff:
  assumes "\<And>m r pd. parseDate (date r) = Some pd \<Longrightarrow> f m r \<noteq> []"
    and "\<And>m r. parseDate (date r) = None \<Longrightarrow> f m r = m"
  shows "foldl f m rows = [] \<longleftrightarrow> m = [] \<and> (\<forall>r \<in> set rows. parseDate (date r) = None)"
proof (induction rows arbitrary: m)
  case Nil
  then show ?case by simp
next
  case (Cons r rows)
  show ?case
  proof (cases "parseDate (date r)")
    case None
    then show ?thesis using Cons.IH [of "f m r"] assms(2) [of r m] by simp
  next
    case (Some pd)
    then show ?thesis using Cons.IH [of "f m r"] assms(1) [of r pd m] by simp
  qed
qed

lemma aggregateByMonth_empty_iff:
  "aggregateByMonth h rows = [] \<longleftrightarrow> (\<forall>r \<in> set rows. parseDate (date r) = None)"
  unfolding aggregateByMonth_def
  by (subst foldl_keys_empty_iff) (auto simp: addToAgg_def Let_def mapSet_nonempty)

lemma aggregateByWeek_empty_iff:
  "aggregateByWeek h rows = [] \<longleftrightarrow> (\<forall>r \<in> set rows. parseDate (date r) = None)"
  unfolding aggregateByWeek_def
  by (subst foldl_keys_empty_iff) (auto simp: addToAgg_def Let_def mapSet_nonempty)

lemma no_month_keys_no_week_keys:
  "mapKeys (aggregateByMonth h rows) = [] \<longleftrightarrow> mapKeys (aggregateByWeek h rows) = []"
  by (simp add: mapKeys_def aggregateByMonth_empty_iff aggregateByWeek_empty_iff)

text \<open>
  Claim C5. The weekly branch of the trend step is unreachable: for every input, no month
  key means no week key (a row whose date parses gives one of each), so the condition of
  the branch, no month key and at least two week keys, never holds, and the trend step
  leaves the monthly finding when there are at least two month keys and nothing
  otherwise. The weekly finding (\<open>this week vs last week\<close>) is therefore never
  pushed.
\<close>

theorem weekly_trend_unreachable:
  "(let byMonth = aggregateByMonth h rows;
        monthKeys = sort (mapKeys byMonth);
        weekKeys = sort (mapKeys (aggregateByWeek h rows))
    in \<not> (length monthKeys < 2 \<and> length monthKeys = 0 \<and> 2 \<le> length weekKeys)
       \<and> (length monthKeys = 0 \<longleftrightarrow> length weekKeys = 0)
       \<and> trend h rows = (if 2 \<le> length monthKeys then monthlyTrend h byMonth monthKeys else (None, None)))"
proof -
  have e: "length (sort (mapKeys (aggregateByMonth h rows))) = 0 \<longleftrightarrow>
           length (sort (mapKeys (aggregateByWeek h rows))) = 0"
    using no_month_keys_no_week_keys [of h rows] by simp
  show ?thesis
    unfolding Let_def trend_def using e by auto
qed

lemma parseDate_1_jan_2025: "parseDate (Str ''01-01-2025'') =
    Some \<lparr>year = 2025, month = 1, day = 1, date' = \<lparr>getFullYear = 2025, getMonth = 0, getDate = 1\<rparr>,
          dayOfWeek = 3, weekKey = ''2024-12-30''\<rparr>"
proof -
  have t: "trim ''01-01-2025'' = ddmmyyyy 1 1 2025" by code_simp
  have g: "getDay \<lparr>getFullYear = 2025, getMonth = 0, getDate = 1\<rparr> = 3" by code_simp
  have s: "shiftDays \<lparr>getFullYear = 2025, getMonth = 0, getDate = 1\<rparr> (1 - 3)
       = \<lparr>getFullYear = 2024, getMonth = 11, getDate = 30\<rparr>" by code_simp
  have k: "isoDate \<lparr>getFullYear = 2024, getMonth = 11, getDate = 30\<rparr> = ''2024-12-30''" by code_simp
  show ?thesis
    using parseDate_value [of "''01-01-2025''" 1 1 2025 3 "''2024-12-30''"] t g s k
    by (simp add: fullYearOf_def daysInMonth_def)
qed

lemma parseDate_8_jan_2025: "parseDate (Str ''08-01-2025'') =
    Some \<lparr>year = 2025, month = 1, day = 8, date' = \<lparr>getFullYear = 2025, getMonth = 0, getDate = 8\<rparr>,
          dayOfWeek = 3, weekKey = ''2025-01-06''\<rparr>"
proof -
  have t: "trim ''08-01-2025'' = ddmmyyyy 8 1 2025" by code_simp
  have g: "getDay \<lparr>getFullYear = 2025, getMonth = 0, getDate = 8\<rparr> = 3" by code_simp
  have s: "shiftDays \<lparr>getFullYear = 2025, getMonth = 0, getDate = 8\<rparr> (1 - 3)
       = \<lparr>getFullYear = 2025, getMonth = 0, getDate = 6\<rparr>" by code_simp
  have k: "isoDate \<lparr>getFullYear = 2025, getMonth = 0, getDate = 6\<rparr> = ''2025-01-06''" by code_simp
  show ?thesis
    using parseDate_value [of "''08-01-2025''" 8 1 2025 3 "''2025-01-06''"] t g s k
    by (simp add: fullYearOf_def daysInMonth_def)
qed

lemma parseDate_9_jan_2025: "parseDate (Str ''09-01-2025'') =
    Some \<lparr>year = 2025, month = 1, day = 9, date' = \<lparr>getFullYear = 2025, getMonth = 0, getDate = 9\<rparr>,
          dayOfWeek = 4, weekKey = ''2025-01-06''\<rparr>"
proof -
  have t: "trim ''09-01-2025'' = ddmmyyyy 9 1 2025" by code_simp
  have g: "getDay \<lparr>getFullYear = 2025, getMonth = 0, getDate = 9\<rparr> = 4" by code_simp
  have s: "shiftDays \<lparr>getFullYear = 2025, getMonth = 0, getDate = 9\<rparr> (1 - 4)
       = \<lparr>getFullYear = 2025, getMonth = 0, getDate = 6\<rparr>" by code_simp
  have k: "isoDate \<lparr>getFullYear = 2025, getMonth = 0, getDate = 6\<rparr> = ''2025-01-06''" by code_simp
  show ?thesis
    using parseDate_value [of "''09-01-2025''" 9 1 2025 4 "''2025-01-06''"] t g s k
    by (simp add: fullYearOf_def daysInMonth_def)
qed

lemma aggregateByMonth_januaryRows: "aggregateByMonth plainHost januaryRows = [(''2025-01'', \<lparr>agg_revenue = 250, agg_quantity = 25\<rparr>)]"
  by (simp add: aggregateByMonth_def januaryRows_def saleRow_def parseDate_1_jan_2025 parseDate_8_jan_2025 parseDate_9_jan_2025 addToAgg_def mapGet_def
      monthKey_def int_to_string_def padStart2_def digit_char_def getRevenue_def getQuantity_def nullish_def)

lemma aggregateByWeek_januaryRows: "aggregateByWeek plainHost januaryRows =
    [(''2024-12-30'', \<lparr>agg_revenue = 100, agg_quantity = 10\<rparr>), (''2025-01-06'', \<lparr>agg_revenue = 150, agg_quantity = 15\<rparr>)]"
  by (simp add: aggregateByWeek_def januaryRows_def saleRow_def parseDate_1_jan_2025 parseDate_8_jan_2025 parseDate_9_jan_2025 addToAgg_def mapGet_def
      getRevenue_def getQuantity_def nullish_def)

lemma sort_january_keys: "sort [''2024-12-30'', ''2025-01-06''] = [''2024-12-30'', ''2025-01-06'']" "sort [''2025-01''] = [''2025-01'']"
  by code_simp+

text \<open>
  With fewer than two month keys the trend step leaves nothing, whatever the number of
  week keys.
\<close>

lemma sort_empty_iff: "sort xs = [] \<longleftrightarrow> xs = []"
  using length_sort [of "\<lambda>x. x" xs] by (metis length_0_conv)

lemma trend_needs_two_months:
  assumes "length (sort (mapKeys (aggregateByMonth h rows))) < 2"
  shows "trend h rows = (None, None)"
proof (cases "mapKeys (aggregateByMonth h rows) = []")
  case True
  then have "mapKeys (aggregateByWeek h rows) = []"
    using no_month_keys_no_week_keys [of h rows] by simp
  then show ?thesis using True by (simp add: trend_def Let_def)
next
  case False
  then show ?thesis using assms by (simp add: trend_def Let_def sort_empty_iff)
qed

text \<open>
  Claim C4 on three sales of January 2025: the rows yield one month key and two week
  keys, so the claim expects the weekly finding (revenue of the week of 6 January, 150,
  against that of the week of 30 December, 100) and an action; the trend step leaves
  neither a finding nor an action.
\<close>

theorem weekly_fallback_not_taken: "sort (mapKeys (aggregateByMonth plainHost januaryRows)) = [''2025-01'']
   \<and> sort (mapKeys (aggregateByWeek plainHost januaryRows)) = [''2024-12-30'', ''2025-01-06'']
   \<and> trend plainHost januaryRows = (None, None)"
  by (simp add: trend_def aggregateByMonth_januaryRows aggregateByWeek_januaryRows mapKeys_def sort_january_keys)

section \<open>Properties of the pipeline\<close>

lemma uniq_snoc: "uniq (xs @ [x]) = setAdd x (uniq xs)"
  by (simp add: uniq_def)

lemma set_uniq: "set (uniq xs) = set xs"
  by (induction xs rule: rev_induct) (auto simp: uniq_snoc setAdd_def uniq_def)

lemma distinct_uniq: "distinct (uniq xs)"
  by (induction xs rule: rev_induct) (auto simp: uniq_snoc setAdd_def uniq_def)

lemma firstOccurrences_snoc:
  "firstOccurrences (xs @ [x]) = firstOccurrences xs @ (if x \<in> set xs then [] else [x])"
proof -
  let ?P = "\<lambda>i. (xs @ [x]) ! i \<notin> set (take i (xs @ [x]))"
  let ?f = "\<lambda>i. (xs @ [x]) ! i"
  have up: "[0 ..< length (xs @ [x])] = [0 ..< length xs] @ [length xs]" by simp
  have a: "filter ?P [0 ..< length xs] = filter (\<lambda>i. xs ! i \<notin> set (take i xs)) [0 ..< length xs]"
    by (rule filter_cong) (auto simp: nth_append)
  have b: "map ?f (filter (\<lambda>i. xs ! i \<notin> set (take i xs)) [0 ..< length xs])
         = map (\<lambda>i. xs ! i) (filter (\<lambda>i. xs ! i \<notin> set (take i xs)) [0 ..< length xs])"
    by (rule map_cong) (auto simp: nth_append)
  have c: "map ?f (filter ?P [length xs]) = (if x \<in> set xs then [] else [x])"
    by simp
  have "firstOccurrences (xs @ [x]) = map ?f (filter ?P [0 ..< length xs]) @ map ?f (filter ?P [length xs])"
    unfolding firstOccurrences_def up by (simp only: filter_append map_append)
  also have "\<dots> = firstOccurrences xs @ (if x \<in> set xs then [] else [x])"
    unfolding a b c by (simp only: firstOccurrences_def)
  finally show ?thesis .
qed

lemma uniq_firstOccurrences: "uniq xs = firstOccurrences xs"
proof (induction xs rule: rev_induct)
  case Nil
  then show ?case by (simp add: uniq_def firstOccurrences_def)
next
  case (snoc x xs)
  then show ?case
    by (simp add: uniq_snoc firstOccurrences_snoc setAdd_def set_uniq [of xs, symmetric] del: set_uniq)
qed

lemma uniq_Cons: "uniq (x # xs) = x # filter (\<lambda>y. y \<noteq> x) (uniq xs)"
proof (induction xs rule: rev_induct)
  case Nil
  then show ?case by (simp add: uniq_def setAdd_def)
next
  case (snoc z xs)
  have "uniq (x # xs @ [z]) = setAdd z (uniq (x # xs))"
    using uniq_snoc [of "x # xs" z] by simp
  then show ?case
    using snoc by (auto simp: uniq_snoc setAdd_def set_uniq)
qed

lemma take_filter_keeps: "y \<in> set (take k ys) \<Longrightarrow> P y \<Longrightarrow> y \<in> set (take k (filter P ys))"
proof (induction ys arbitrary: k)
  case Nil
  then show ?case by simp
next
  case (Cons a ys)
  then show ?case
    using set_take_subset_set_take [of "k - 1" k "filter P ys"]
    by (cases k) auto
qed

lemma take_uniq_keeps: "y \<in> set (take k xs) \<Longrightarrow> y \<in> set (take k (uniq xs))"
proof (induction xs arbitrary: k)
  case Nil
  then show ?case by simp
next
  case (Cons a xs)
  show ?case
  proof (cases k)
    case 0
    then show ?thesis using Cons.prems by simp
  next
    case (Suc j)
    show ?thesis
    proof (cases "y = a")
      case True
      then show ?thesis by (simp add: uniq_Cons Suc)
    next
      case False
      then have "y \<in> set (take j xs)" using Cons.prems Suc by simp
      then have "y \<in> set (take j (uniq xs))" by (rule Cons.IH)
      then have "y \<in> set (take j (filter (\<lambda>z. z \<noteq> a) (uniq xs)))"
        using False by (rule take_filter_keeps)
      then show ?thesis by (simp add: uniq_Cons Suc)
    qed
  qed
qed

text \<open>
  Claim C9. For every input that passes the gate, each of the three output lists is the
  list the steps accumulated, deduplicated by equality of strings with the first
  occurrence of each string kept in order; the deduplicated findings are then cut to at
  most 6 entries and the actions to at most 5, and the warnings are not cut: every
  accumulated warning is in the output.
\<close>

theorem generateInsights_finalize:
  "3 \<le> length rows \<longrightarrow>
     findings (generateInsights h (RowArray rows)) = take 6 (firstOccurrences (findings (collectInsights h rows)))
     \<and> actions (generateInsights h (RowArray rows)) = take 5 (firstOccurrences (actions (collectInsights h rows)))
     \<and> warnings (generateInsights h (RowArray rows)) = firstOccurrences (warnings (collectInsights h rows))
     \<and> distinct (findings (generateInsights h (RowArray rows)))
     \<and> distinct (actions (generateInsights h (RowArray rows)))
     \<and> distinct (warnings (generateInsights h (RowArray rows)))
     \<and> length (findings (generateInsights h (RowArray rows))) \<le> 6
     \<and> length (actions (generateInsights h (RowArray rows))) \<le> 5
     \<and> set (warnings (generateInsights h (RowArray rows))) = set (warnings (collectInsights h rows))"
proof
  assume "3 \<le> length rows"
  then have g: "generateInsights h (RowArray rows) =
      \<lparr>findings = take 6 (uniq (findings (collectInsights h rows))),
       actions = take 5 (uniq (actions (collectInsights h rows))),
       warnings = uniq (warnings (collectInsights h rows))\<rparr>"
    by (simp add: generateInsights_def MIN_ROWS_FOR_INSIGHTS_def Let_def)
  show "findings (generateInsights h (RowArray rows)) = take 6 (firstOccurrences (findings (collectInsights h rows)))
     \<and> actions (generateInsights h (RowArray rows)) = take 5 (firstOccurrences (actions (collectInsights h rows)))
     \<and> warnings (generateInsights h (RowArray rows)) = firstOccurrences (warnings (collectInsights h rows))
     \<and> distinct (findings (generateInsights h (RowArray rows)))
     \<and> distinct (actions (generateInsights h (RowArray rows)))
     \<and> distinct (warnings (generateInsights h (RowArray rows)))
     \<and> length (findings (generateInsights h (RowArray rows))) \<le> 6
     \<and> length (actions (generateInsights h (RowArray rows))) \<le> 5
     \<and> set (warnings (generateInsights h (RowArray rows))) = set (warnings (collectInsights h rows))"
    unfolding g
    by (simp add: uniq_firstOccurrences [symmetric] distinct_uniq set_uniq)
qed

theorem generateInsights_finalize_witness:
  "distinct (findings (generateInsights plainHost (RowArray januaryRows)))
   \<and> length (findings (generateInsights plainHost (RowArray januaryRows))) \<le> 6
   \<and> length (actions (generateInsights plainHost (RowArray januaryRows))) \<le> 5
   \<and> set (warnings (generateInsights plainHost (RowArray januaryRows))) = set (warnings (collectInsights plainHost januaryRows))
   \<and> firstOccurrences [''a'', ''b'', ''a'', ''c'', ''b''] = [''a'', ''b'', ''c'']"
proof -
  have "3 \<le> length januaryRows" by (simp add: januaryRows_def)
  with generateInsights_finalize [of januaryRows plainHost]
  have "distinct (findings (generateInsights plainHost (RowArray januaryRows)))
   \<and> length (findings (generateInsights plainHost (RowArray januaryRows))) \<le> 6
   \<and> length (actions (generateInsights plainHost (RowArray januaryRows))) \<le> 5
   \<and> set (warnings (generateInsights plainHost (RowArray januaryRows))) = set (warnings (collectInsights plainHost januaryRows))"
    by blast
  moreover have "firstOccurrences [''a'', ''b'', ''a'', ''c'', ''b''] = [''a'', ''b'', ''c'']"
    by (simp add: firstOccurrences_def upt_rec)
  ultimately show ?thesis by blast
qed

lemma foldl_nonempty:
  assumes "\<And>m r. f m r \<noteq> []"
  shows "rows \<noteq> [] \<Longrightarrow> foldl f m rows \<noteq> []"
  by (induction rows arbitrary: m rule: rev_induct) (simp_all add: assms)

lemma groupByProduct_nonempty: "rows \<noteq> [] \<Longrightarrow> groupByProduct h rows \<noteq> []"
  unfolding groupByProduct_def mapValues_def
  by (simp add: Let_def) (rule foldl_nonempty, simp_all add: mapSet_nonempty)

lemma topProducts_first:
  "byProduct \<noteq> [] \<Longrightarrow>
   \<exists>rest. fst (topProducts h byProduct tot) =
     (''Top 3 products by revenue: '' @ join '', '' (map p_product (take 3 (sort_key (\<lambda>p. - p_revenue p) byProduct))) @ ''.'') # rest"
proof -
  assume "byProduct \<noteq> []"
  then have "length (sort_key (\<lambda>p. - p_revenue p) byProduct) \<noteq> 0" by simp
  then have "take 3 (sort_key (\<lambda>p. - p_revenue p) byProduct) \<noteq> []" by (simp del: length_sort)
  then show ?thesis by (simp add: topProducts_def Let_def)
qed

lemma collectInsights_findings:
  "\<exists>rest. findings (collectInsights h rows) =
     (case fst (trend h rows) of Some f \<Rightarrow> [f] | None \<Rightarrow> [])
     @ fst (topProducts h (groupByProduct h rows) (foldl (\<lambda>sum r. sum + getRevenue h r) 0 rows)) @ rest"
  by (simp add: collectInsights_def Let_def case_prod_beta)

lemma top3_in_raw:
  assumes "rows \<noteq> []"
  shows "top3Finding h rows \<in> set (take 2 (findings (collectInsights h rows)))"
proof -
  obtain rest where a: "findings (collectInsights h rows) =
     (case fst (trend h rows) of Some f \<Rightarrow> [f] | None \<Rightarrow> [])
     @ fst (topProducts h (groupByProduct h rows) (foldl (\<lambda>sum r. sum + getRevenue h r) 0 rows)) @ rest"
    using collectInsights_findings by blast
  obtain rest' where b: "fst (topProducts h (groupByProduct h rows) (foldl (\<lambda>sum r. sum + getRevenue h r) 0 rows))
      = top3Finding h rows # rest'"
    using topProducts_first [OF groupByProduct_nonempty [OF assms]] unfolding top3Finding_def by blast
  show ?thesis unfolding a b by (simp split: option.splits)
qed

text \<open>
  Claim C1. \<open>generateInsights\<close> returns the all-empty result exactly when the gate
  fails, that is when its argument is not an array of at least 3 rows; and for every
  array of at least 3 rows the findings are not empty: they contain the finding of the
  top 3 products by revenue.
\<close>

theorem generateInsights_empty_iff_gate:
  "(generateInsights h arg = \<lparr>findings = [], actions = [], warnings = []\<rparr>
      \<longleftrightarrow> \<not> (\<exists>rows. arg = RowArray rows \<and> 3 \<le> length rows))
   \<and> (\<forall>rows. arg = RowArray rows \<and> 3 \<le> length rows \<longrightarrow>
         findings (generateInsights h arg) \<noteq> []
         \<and> top3Finding h rows \<in> set (findings (generateInsights h arg)))"
proof -
  have pos: "top3Finding h rows \<in> set (findings (generateInsights h (RowArray rows)))"
    if "3 \<le> length rows" for rows
  proof -
    have "rows \<noteq> []" using that by auto
    then have "top3Finding h rows \<in> set (take 2 (uniq (findings (collectInsights h rows))))"
      by (intro take_uniq_keeps top3_in_raw)
    then have "top3Finding h rows \<in> set (take 6 (uniq (findings (collectInsights h rows))))"
      using set_take_subset_set_take [of 2 6] by fastforce
    then show ?thesis
      using that by (simp add: generateInsights_def MIN_ROWS_FOR_INSIGHTS_def Let_def)
  qed
  have ne: "findings (generateInsights h (RowArray rows)) \<noteq> []" if "3 \<le> length rows" for rows
    using pos [OF that] by auto
  have gate: "generateInsights h arg = \<lparr>findings = [], actions = [], warnings = []\<rparr>"
    if "\<not> (\<exists>rows. arg = RowArray rows \<and> 3 \<le> length rows)"
    using that by (cases arg) (auto simp: generateInsights_def MIN_ROWS_FOR_INSIGHTS_def)
  show ?thesis
  proof (intro conjI iffI allI impI)
    assume e: "generateInsights h arg = \<lparr>findings = [], actions = [], warnings = []\<rparr>"
    show "\<not> (\<exists>rows. arg = RowArray rows \<and> 3 \<le> length rows)"
    proof
      assume "\<exists>rows. arg = RowArray rows \<and> 3 \<le> length rows"
      then obtain rows where "arg = RowArray rows" "3 \<le> length rows" by blast
      then show False using ne [of rows] e by simp
    qed
  next
    assume "\<not> (\<exists>rows. arg = RowArray rows \<and> 3 \<le> length rows)"
    then show "generateInsights h arg = \<lparr>findings = [], actions = [], warnings = []\<rparr>" by (rule gate)
  next
    fix rows assume "arg = RowArray rows \<and> 3 \<le> length rows"
    then show "findings (generateInsights h arg) \<noteq> []" using ne by blast
  next
    fix rows assume "arg = RowArray rows \<and> 3 \<le> length rows"
    then show "top3Finding h rows \<in> set (findings (generateInsights h arg))" using pos by blast
  qed
qed

theorem generateInsights_empty_iff_gate_witness:
  "findings (generateInsights plainHost (RowArray januaryRows)) \<noteq> []
   \<and> top3Finding plainHost januaryRows \<in> set (findings (generateInsights plainHost (RowArray januaryRows)))
   \<and> generateInsights plainHost (RowArray (take 2 januaryRows)) = \<lparr>findings = [], actions = [], warnings = []\<rparr>
   \<and> generateInsights plainHost NotAnArray = \<lparr>findings = [], actions = [], warnings = []\<rparr>"
  using generateInsights_empty_iff_gate [of plainHost "RowArray januaryRows"]
    generateInsights_empty_iff_gate [of plainHost "RowArray (take 2 januaryRows)"]
    generateInsights_empty_iff_gate [of plainHost NotAnArray]
  by (simp add: januaryRows_def)

end
